theory Spec2Isabelle
  imports Main "HOL-Library.Log_Nat"
begin

section \<open>JavaScript values and strings\<close>

text \<open>
  The values that reach the matcher: \<open>undefined\<close>, \<open>null\<close>, integral numbers,
  \<open>NaN\<close> and strings. Strings are ASCII; \<open>toLowerCase\<close> and \<open>trim\<close> act on
  the ASCII letters and the ASCII white space. Object keys are taken not to be names of
  \<open>Object.prototype\<close>.
\<close>

datatype jsval = JUndefined | JNull | JNum int | JNaN | JStr string

fun digitsOf :: "nat \<Rightarrow> string" where
  "digitsOf n =
     (if n < 10 then [char_of (48 + n)]
      else digitsOf (n div 10) @ [char_of (48 + n mod 10)])"

declare digitsOf.simps [simp del]

definition numToString :: "int \<Rightarrow> string" where
  "numToString i = (if i < 0 then CHR ''-'' # digitsOf (nat (- i)) else digitsOf (nat i))"

text \<open>\<open>String(v)\<close>, also the conversion of a value used as an object key or in a template.\<close>

fun String_of :: "jsval \<Rightarrow> string" where
  "String_of JUndefined = ''undefined''"
| "String_of JNull = ''null''"
| "String_of (JNum i) = numToString i"
| "String_of JNaN = ''NaN''"
| "String_of (JStr s) = s"

fun truthy :: "jsval \<Rightarrow> bool" where
  "truthy JUndefined = False"
| "truthy JNull = False"
| "truthy (JNum i) = (i \<noteq> 0)"
| "truthy JNaN = False"
| "truthy (JStr s) = (s \<noteq> [])"

text \<open>\<open>a === b\<close>: equal type and equal value, and \<open>NaN\<close> equal to nothing.\<close>

definition strictEq :: "jsval \<Rightarrow> jsval \<Rightarrow> bool" where
  "strictEq a b = (a = b \<and> a \<noteq> JNaN)"

text \<open>\<open>a || b\<close>\<close>

definition jsOr :: "jsval \<Rightarrow> jsval \<Rightarrow> jsval" where
  "jsOr a b = (if truthy a then a else b)"

definition isSpace :: "char \<Rightarrow> bool" where
  "isSpace c = (c \<in> set [CHR '' '', CHR 0x09, CHR 0x0A, CHR 0x0B, CHR 0x0C, CHR 0x0D])"

definition trim :: "string \<Rightarrow> string" where
  "trim s = rev (dropWhile isSpace (rev (dropWhile isSpace s)))"

definition toLowerChar :: "char \<Rightarrow> char" where
  "toLowerChar c =
     (let n = (of_char c :: nat) in if 65 \<le> n \<and> n \<le> 90 then char_of (n + 32) else c)"

definition toLowerCase :: "string \<Rightarrow> string" where
  "toLowerCase s = map toLowerChar s"

text \<open>\<open>s.split(' ')\<close>: the pieces between single space characters, empty pieces kept.\<close>

fun splitSpace :: "string \<Rightarrow> string list" where
  "splitSpace [] = [[]]"
| "splitSpace (c # cs) =
     (if c = CHR '' '' then [] # splitSpace cs
      else (case splitSpace cs of [] \<Rightarrow> [[c]] | w # ws \<Rightarrow> (c # w) # ws))"

section \<open>preProcess/users: the simplified user objects\<close>

text \<open>A Canvas user object as the caller passes it; \<open>other_fields\<close> is the rest of it.\<close>

record canvasUser =
  user_id :: jsval
  name :: jsval
  sortable_name :: jsval
  sis_user_id :: jsval
  login_id :: jsval
  user_email :: jsval
  other_fields :: string

record simpleObject =
  canvasId :: jsval
  fullName :: jsval
  sortableName :: jsval
  sisUserId :: jsval
  loginId :: jsval
  email :: jsval

text \<open>The keys of a simplified object, in the order \<open>Object.keys\<close> lists them.\<close>

datatype propKey = CanvasId | FullName | SortableName | SisUserId | LoginId | Email

definition props :: "propKey list" where
  "props = [CanvasId, FullName, SortableName, SisUserId, LoginId, Email]"

text \<open>The place of a key in that order.\<close>

fun propIndex :: "propKey \<Rightarrow> nat" where
  "propIndex CanvasId = 0"
| "propIndex FullName = 1"
| "propIndex SortableName = 2"
| "propIndex SisUserId = 3"
| "propIndex LoginId = 4"
| "propIndex Email = 5"

text \<open>\<open>obj[prop]\<close>\<close>

fun getProp :: "simpleObject \<Rightarrow> propKey \<Rightarrow> jsval" where
  "getProp obj CanvasId = canvasId obj"
| "getProp obj FullName = fullName obj"
| "getProp obj SortableName = sortableName obj"
| "getProp obj SisUserId = sisUserId obj"
| "getProp obj LoginId = loginId obj"
| "getProp obj Email = email obj"

text \<open>\<open>obj[prop] = undefined\<close>: the key stays, its value is \<open>undefined\<close>.\<close>

fun setUndefined :: "propKey \<Rightarrow> simpleObject \<Rightarrow> simpleObject" where
  "setUndefined CanvasId obj = obj\<lparr>canvasId := JUndefined\<rparr>"
| "setUndefined FullName obj = obj\<lparr>fullName := JUndefined\<rparr>"
| "setUndefined SortableName obj = obj\<lparr>sortableName := JUndefined\<rparr>"
| "setUndefined SisUserId obj = obj\<lparr>sisUserId := JUndefined\<rparr>"
| "setUndefined LoginId obj = obj\<lparr>loginId := JUndefined\<rparr>"
| "setUndefined Email obj = obj\<lparr>email := JUndefined\<rparr>"

text \<open>\<open>String(v || '').toLowerCase()\<close>\<close>

definition lowerField :: "jsval \<Rightarrow> jsval" where
  "lowerField v = JStr (toLowerCase (String_of (jsOr v (JStr []))))"

definition toSimpleObject :: "canvasUser \<Rightarrow> simpleObject" where
  "toSimpleObject user =
     \<lparr> canvasId = user_id user,
       fullName = lowerField (name user),
       sortableName = lowerField (sortable_name user),
       sisUserId = lowerField (sis_user_id user),
       loginId = lowerField (login_id user),
       email = lowerField (user_email user) \<rparr>"

text \<open>\<open>simpleObjects.every((obj) => obj[firstProp] === obj[secondProp])\<close>\<close>

definition isDuplicate :: "simpleObject list \<Rightarrow> propKey \<Rightarrow> propKey \<Rightarrow> bool" where
  "isDuplicate simpleObjects firstProp secondProp =
     list_all (\<lambda>obj. strictEq (getProp obj firstProp) (getProp obj secondProp)) simpleObjects"

text \<open>The inner loop of \<open>findSecondPropOfDuplicate\<close>, over \<open>j\<close>.\<close>

fun findSecondProp :: "simpleObject list \<Rightarrow> propKey \<Rightarrow> propKey list \<Rightarrow> propKey option" where
  "findSecondProp simpleObjects firstProp [] = None"
| "findSecondProp simpleObjects firstProp (secondProp # rest) =
     (if isDuplicate simpleObjects firstProp secondProp
      then Some secondProp
      else findSecondProp simpleObjects firstProp rest)"

text \<open>The outer loop, over \<open>i\<close>; the last \<open>i\<close> has no \<open>j\<close> left.\<close>

fun findFirstProp :: "simpleObject list \<Rightarrow> propKey list \<Rightarrow> propKey option" where
  "findFirstProp simpleObjects [] = None"
| "findFirstProp simpleObjects (firstProp # rest) =
     (case findSecondProp simpleObjects firstProp rest of
        Some secondProp \<Rightarrow> Some secondProp
      | None \<Rightarrow> findFirstProp simpleObjects rest)"

definition findSecondPropOfDuplicate :: "simpleObject list \<Rightarrow> propKey option" where
  "findSecondPropOfDuplicate simpleObjects =
     (if simpleObjects = [] then None else findFirstProp simpleObjects props)"

text \<open>
  The \<open>while (stillSearchingForDups)\<close> loop. It need not end, so the result is an
  option: \<open>None\<close> is a loop that runs forever.
\<close>

partial_function (option) removeDuplicateProps :: "simpleObject list \<Rightarrow> simpleObject list option"
  where
  "removeDuplicateProps simpleObjects =
     (case findSecondPropOfDuplicate simpleObjects of
        Some secondProp \<Rightarrow> removeDuplicateProps (map (setUndefined secondProp) simpleObjects)
      | None \<Rightarrow> Some simpleObjects)"

definition preProcessUsers :: "canvasUser list \<Rightarrow> simpleObject list option" where
  "preProcessUsers users = removeDuplicateProps (map toSimpleObject users)"

section \<open>helpers/genPropToCellToUser: the lookup map\<close>

text \<open>
  An entry of the inner map is a user or \<open>null\<close>; a key that was never written is
  absent. The outer object lists its keys in insertion order.
\<close>

datatype entry = Null | User simpleObject

type_synonym cellToUser = "string \<rightharpoonup> entry"
type_synonym propToCellToUser = "(propKey \<times> cellToUser) list"

text \<open>\<open>propToCellToUser[prop]\<close>, the empty object when the key is not there yet.\<close>

definition cellsOf :: "propToCellToUser \<Rightarrow> propKey \<Rightarrow> cellToUser" where
  "cellsOf m p = (case map_of m p of None \<Rightarrow> Map.empty | Some cells \<Rightarrow> cells)"

text \<open>Is \<open>m[cell]\<close> truthy: a user, neither \<open>null\<close> nor absent.\<close>

definition hasUser :: "cellToUser \<Rightarrow> string \<Rightarrow> bool" where
  "hasUser cells cell = (case cells cell of Some (User u) \<Rightarrow> True | _ \<Rightarrow> False)"

text \<open>\<open>obj[key] = value\<close> on an object whose key order matters.\<close>

fun setKey :: "'k \<Rightarrow> 'v \<Rightarrow> ('k \<times> 'v) list \<Rightarrow> ('k \<times> 'v) list" where
  "setKey k v [] = [(k, v)]"
| "setKey k v ((k', v') # rest) =
     (if k = k' then (k, v) # rest else (k', v') # setKey k v rest)"

text \<open>\<open>Object.keys(obj)\<close>\<close>

definition objectKeys :: "('k \<times> 'v) list \<Rightarrow> 'k list" where
  "objectKeys obj = map fst obj"

text \<open>\<open>String(user[prop]).trim().toLowerCase()\<close>\<close>

definition cellOf :: "simpleObject \<Rightarrow> propKey \<Rightarrow> string" where
  "cellOf u p = toLowerCase (trim (String_of (getProp u p)))"

text \<open>The body of the inner \<open>forEach\<close>: one prop of one user.\<close>

definition addProp :: "simpleObject \<Rightarrow> propToCellToUser \<Rightarrow> propKey \<Rightarrow> propToCellToUser" where
  "addProp u m p =
     (if hasUser (cellsOf m p) (cellOf u p)
      then setKey p ((cellsOf m p)(cellOf u p \<mapsto> Null)) m
      else setKey p ((cellsOf m p)(cellOf u p \<mapsto> User u)) m)"

definition addUser :: "propToCellToUser \<Rightarrow> simpleObject \<Rightarrow> propToCellToUser" where
  "addUser m user = foldl (addProp user) m props"

definition genPropToCellToUser :: "simpleObject list \<Rightarrow> propToCellToUser" where
  "genPropToCellToUser users = foldl addUser [] users"

section \<open>Numbers\<close>

text \<open>
  A JavaScript number is an IEEE double. \<open>toDouble\<close> rounds a non-negative rational
  to the nearest double, ties to the even mantissa; the matcher divides and multiplies
  small non-negative integers only, so the normal range is all that is needed.
  \<open>exponentOf x\<close> is the \<open>e\<close> with \<open>2^52 \<le> x / 2^e < 2^53\<close>.
\<close>

definition roundHalfEven :: "rat \<Rightarrow> int" where
  "roundHalfEven x =
     (let f = \<lfloor>x\<rfloor>; d = x - of_int f
      in if d < 1 / 2 then f else if 1 / 2 < d then f + 1 else if even f then f else f + 1)"

definition pow2 :: "int \<Rightarrow> rat" where
  "pow2 e = (if 0 \<le> e then 2 ^ nat e else 1 / 2 ^ nat (- e))"

definition exponentOf :: "rat \<Rightarrow> int" where
  "exponentOf x =
     (let e = bitlen (fst (quotient_of x)) - bitlen (snd (quotient_of x)) - 53
      in if x / pow2 e < 2 ^ 53 then e else e + 1)"

definition toDouble :: "rat \<Rightarrow> rat" where
  "toDouble x =
     (if x \<le> 0 then 0
      else of_int (roundHalfEven (x / pow2 (exponentOf x))) * pow2 (exponentOf x))"

text \<open>
  \<open>a / b\<close> for two array lengths or counters; \<open>None\<close> is \<open>NaN\<close>. Wherever
  the matcher divides, a zero divisor comes with a zero dividend.
\<close>

definition jsDivide :: "nat \<Rightarrow> nat \<Rightarrow> rat option" where
  "jsDivide a b = (if b = 0 then None else Some (toDouble (of_nat a / of_nat b)))"

definition jsTimes :: "rat \<Rightarrow> rat \<Rightarrow> rat" where
  "jsTimes a b = toDouble (a * b)"

text \<open>\<open>Math.round\<close>: the nearest integer, a tie going up. \<open>Math.floor\<close>.\<close>

definition mathRound :: "rat \<Rightarrow> int" where
  "mathRound x = \<lfloor>x + 1 / 2\<rfloor>"

definition mathFloor :: "rat \<Rightarrow> int" where
  "mathFloor x = \<lfloor>x\<rfloor>"

section \<open>preProcess/csv: the table\<close>

record csvTable =
  headers :: "string list"
  rows :: "string list list"

text \<open>
  The argument \<open>csv\<close> of the run. It is missing (\<open>undefined\<close>, \<open>null\<close>, the empty string:
  any falsy value), or a string, or an object. A string is the name of a file or the text
  of a table; reading the file (\<open>fs.readFileSync\<close>) and parsing the text (\<open>Papa.parse\<close>)
  are done by libraries, so what they give is part of the argument here: the file cannot
  be read, or the parser returns the lines \<open>data\<close> and its list \<open>errors\<close>. An object has a
  field \<open>headers\<close> and a field \<open>rows\<close>, each of which may be missing. Cells are strings.
\<close>

datatype csvArg =
    CsvMissing
  | CsvUnreadableFile
  | CsvText "string list list" "string list"
  | CsvObject "string list option" "string list list option"

datatype error =
    NoCSVIncluded
  | FileNotRead
  | CSVParseError "string list"
  | EmptyCSV
  | WrongCSVFormat
  | NoUsersToMatchWith
  | TypeError

text \<open>
  The two filters at the end of the pre-processing: rows without a non-blank cell and
  rows of the wrong length go.
\<close>

definition filterRows :: "csvTable \<Rightarrow> csvTable" where
  "filterRows csv =
     (let rows1 = filter (\<lambda>row. row \<noteq> [] \<and> list_ex (\<lambda>cell. 0 < length (trim cell)) row)
                    (rows csv);
          rows2 = filter (\<lambda>row. length row = length (headers csv)) rows1
      in csv\<lparr>rows := rows2\<rparr>)"

text \<open>
  \<open>module.exports = (oldCSV) => ...\<close> of preProcess/csv, with each \<open>throw\<close> a value: no
  table, a file that cannot be read, errors of the parser, no line or an empty first line,
  an object without rows or without headers. The first line of a parsed text is the
  header row.
\<close>

definition preProcessCSV :: "csvArg \<Rightarrow> error + csvTable" where
  "preProcessCSV oldCSV =
     (case oldCSV of
        CsvMissing \<Rightarrow> Inl NoCSVIncluded
      | CsvUnreadableFile \<Rightarrow> Inl FileNotRead
      | CsvText data errs \<Rightarrow>
          (if errs \<noteq> [] then Inl (CSVParseError errs)
           else if data = [] \<or> hd data = [] then Inl EmptyCSV
           else Inr (filterRows \<lparr> headers = hd data, rows = tl data \<rparr>))
      | CsvObject hs rs \<Rightarrow>
          (case rs of
             None \<Rightarrow> Inl WrongCSVFormat
           | Some rws \<Rightarrow>
               (case hs of
                  None \<Rightarrow> Inl WrongCSVFormat
                | Some hds \<Rightarrow> Inr (filterRows \<lparr> headers = hds, rows = rws \<rparr>))))"

section \<open>index: options, constants and results\<close>

definition ANY_NUMBER :: jsval where "ANY_NUMBER = JStr ''any''"
definition AT_LEAST_ONE :: jsval where "AT_LEAST_ONE = JStr ''at-least-one''"
definition AUTO_DETECT :: jsval where "AUTO_DETECT = JStr ''auto-detect''"

datatype colType = DATA | STUDENT | TEACHING_TEAM_MEMBER

fun colTypeName :: "colType \<Rightarrow> string" where
  "colTypeName DATA = ''data''"
| "colTypeName STUDENT = ''student''"
| "colTypeName TEACHING_TEAM_MEMBER = ''teaching team member''"

record opts =
  csv :: csvArg
  students :: "canvasUser list"
  teachingTeamMembers :: "canvasUser list"
  studentOnlyOnce :: bool
  teachingTeamMemberOnlyOnce :: bool
  numStudentsPerRow :: jsval
  numTeachingTeamMembersPerRow :: jsval

record typeAndProp =
  type' :: colType
  prop' :: "propKey option"

record typeDatum = typeAndProp +
  minToMatch :: int
  numMatching :: nat

record rowMatch =
  studentMatches :: "simpleObject list"
  teachingTeamMemberMatches :: "simpleObject list"

record 'u rating =
  user' :: 'u
  confidence :: jsval

record tableRow =
  rawRow :: "string list"
  dataColumns :: "string list"
  rowIndex :: nat

record 'u matchedRow = tableRow +
  rowStudents :: "'u list"
  rowTeachingTeamMembers :: "'u list"

record 'u unmatchedRow = tableRow +
  errors :: "string list"
  potentialStudents :: "'u rating list"
  potentialTeachingTeamMembers :: "'u rating list"

record colTypeOut =
  outType :: colType
  property :: "string option"

record result =
  colTypes :: "colTypeOut list"
  dataHeaders :: "string list"
  usedNumStudentsPerRow :: jsval
  usedNumTeachingTeamMembersPerRow :: jsval
  matchedRows :: "canvasUser option matchedRow list"
  unmatchedRows :: "canvasUser option unmatchedRow list"
  processedCsv :: csvTable

text \<open>
  \<open>array.sort(compare)\<close>, a stable sort (ECMAScript 2019): insertion from the right,
  an element going before the elements it is not greater than.
\<close>

fun insertSorted :: "('a \<Rightarrow> 'a \<Rightarrow> int) \<Rightarrow> 'a \<Rightarrow> 'a list \<Rightarrow> 'a list" where
  "insertSorted compare x [] = [x]"
| "insertSorted compare x (y # ys) =
     (if compare x y \<le> 0 then x # y # ys else y # insertSorted compare x ys)"

definition jsSort :: "('a \<Rightarrow> 'a \<Rightarrow> int) \<Rightarrow> 'a list \<Rightarrow> 'a list" where
  "jsSort compare xs = foldr (insertSorted compare) xs []"

text \<open>\<open>set.add(x)\<close> on a \<open>Set\<close> kept as the list of its elements in insertion order.\<close>

definition setAdd :: "'a list \<Rightarrow> 'a \<Rightarrow> 'a list" where
  "setAdd s x = (if x \<in> set s then s else s @ [x])"

section \<open>genSearchFunctions\<close>

text \<open>\<open>String(cell).toLowerCase().trim().split(' ')\<close>, for a value of a user.\<close>

definition wordsOfValue :: "jsval \<Rightarrow> string list" where
  "wordsOfValue cell = splitSpace (trim (toLowerCase (String_of cell)))"

text \<open>\<open>cell.trim().toLowerCase().split(' ')\<close>, for a cell of a row.\<close>

definition wordsOfCell :: "string \<Rightarrow> string list" where
  "wordsOfCell cell = splitSpace (toLowerCase (trim cell))"

definition addWord :: "string list \<Rightarrow> string \<Rightarrow> string list" where
  "addWord bagOfWords word = (if length word = 0 then bagOfWords else setAdd bagOfWords word)"

definition bagOfWordsOf :: "simpleObject \<Rightarrow> string list" where
  "bagOfWordsOf user =
     foldl (\<lambda>bagOfWords p. foldl addWord bagOfWords (wordsOfValue (getProp user p))) [] props"

definition idToBagOfWords :: "simpleObject list \<Rightarrow> (string \<rightharpoonup> string list)" where
  "idToBagOfWords users =
     foldl (\<lambda>m user. m(String_of (canvasId user) \<mapsto> bagOfWordsOf user)) Map.empty users"

text \<open>
  The two functions that \<open>genSearchFunctions(users)\<close> returns close over
  \<open>users\<close>, \<open>propToCellToUser\<close> and \<open>idToBagOfWords\<close>, all three built once;
  the record is what they captured.
\<close>

record searchFunctions =
  sfUsers :: "simpleObject list"
  sfPropToCellToUser :: propToCellToUser
  sfIdToBagOfWords :: "string \<rightharpoonup> string list"

definition genSearchFunctions :: "simpleObject list \<Rightarrow> searchFunctions" where
  "genSearchFunctions users =
     \<lparr> sfUsers = users, sfPropToCellToUser = genPropToCellToUser users,
       sfIdToBagOfWords = idToBagOfWords users \<rparr>"

text \<open>\<open>getMatch(prop, cell)\<close>; the prop of a data column is \<open>null\<close>.\<close>

definition getMatch :: "searchFunctions \<Rightarrow> propKey option \<Rightarrow> string \<Rightarrow> simpleObject option"
  where
  "getMatch sf prop cell =
     (case prop of
        None \<Rightarrow> None
      | Some p \<Rightarrow>
          (case map_of (sfPropToCellToUser sf) p of
             None \<Rightarrow> None
           | Some cells \<Rightarrow> (case cells cell of Some (User u) \<Rightarrow> Some u | _ \<Rightarrow> None)))"

text \<open>The keys of \<open>userIsExcluded\<close>; a simplified object has no \<open>id\<close>.\<close>

definition userIsExcluded :: "simpleObject list \<Rightarrow> string list" where
  "userIsExcluded usersToExclude =
     map (\<lambda>user. String_of (jsOr (canvasId user) JUndefined)) usersToExclude"

text \<open>The keys of \<open>wordInRow\<close>.\<close>

definition wordInRow :: "string list \<Rightarrow> string list" where
  "wordInRow row = foldl (\<lambda>ws cell. foldl addWord ws (wordsOfCell cell)) [] row"

text \<open>\<open>Math.round((numMatching / bagOfWords.size) * 100)\<close>\<close>

definition confidenceOf :: "nat \<Rightarrow> nat \<Rightarrow> jsval" where
  "confidenceOf n bagSize =
     (case jsDivide n bagSize of None \<Rightarrow> JNaN | Some q \<Rightarrow> JNum (mathRound (jsTimes q 100)))"

text \<open>\<open>a < b\<close> on two numbers; false when either is \<open>NaN\<close>.\<close>

fun jsLess :: "jsval \<Rightarrow> jsval \<Rightarrow> bool" where
  "jsLess (JNum a) (JNum b) = (a < b)"
| "jsLess a b = False"

definition compareConfidence :: "'u rating \<Rightarrow> 'u rating \<Rightarrow> int" where
  "compareConfidence a b =
     (if jsLess (confidence a) (confidence b) then 1
      else if jsLess (confidence b) (confidence a) then - 1 else 0)"

text \<open>
  The bag of a user is read back from \<open>idToBagOfWords\<close> under its \<open>canvasId\<close>;
  every user of the list has one, the empty default is never taken.
\<close>

definition ratingOf ::
  "(string \<rightharpoonup> string list) \<Rightarrow> string list \<Rightarrow> simpleObject \<Rightarrow> simpleObject rating" where
  "ratingOf bags ws u =
     (let bagOfWords = (case bags (String_of (canvasId u)) of
                          None \<Rightarrow> [] | Some bag \<Rightarrow> bag)
      in \<lparr> user' = u,
           confidence = confidenceOf (length (filter (\<lambda>word. word \<in> set ws) bagOfWords))
                          (length bagOfWords) \<rparr>)"

definition usersToInclude :: "simpleObject list \<Rightarrow> simpleObject list \<Rightarrow> simpleObject list" where
  "usersToInclude users usersToExclude =
     filter (\<lambda>u. String_of (canvasId u) \<notin> set (userIsExcluded usersToExclude)) users"

definition getConfidenceRatings ::
  "searchFunctions \<Rightarrow> string list \<Rightarrow> simpleObject list \<Rightarrow> simpleObject rating list" where
  "getConfidenceRatings sf row usersToExclude =
     jsSort compareConfidence
       (map (ratingOf (sfIdToBagOfWords sf) (wordInRow row))
          (usersToInclude (sfUsers sf) usersToExclude))"

section \<open>index: column types\<close>

definition numMatchingIn :: "cellToUser \<Rightarrow> string list \<Rightarrow> nat" where
  "numMatchingIn cellToUser cells =
     length (filter (\<lambda>cell. hasUser cellToUser (toLowerCase (trim cell))) cells)"

definition numNonemptyIn :: "string list \<Rightarrow> nat" where
  "numNonemptyIn cells = length (filter (\<lambda>cell. 0 < length (trim cell)) cells)"

text \<open>\<open>Math.floor(numNonempty * 0.4)\<close>\<close>

definition minToMatchOf :: "nat \<Rightarrow> int" where
  "minToMatchOf numNonempty = mathFloor (jsTimes (of_nat numNonempty) (toDouble (4 / 10)))"

type_synonym pods = "(propToCellToUser \<times> colType) list"

definition typeDataOf :: "pods \<Rightarrow> string list \<Rightarrow> typeDatum list" where
  "typeDataOf pods cells =
     concat (map (\<lambda>(propToCellToUser, t).
       map (\<lambda>(p, cellToUser).
             \<lparr> type' = t, prop' = Some p,
               minToMatch = minToMatchOf (numNonemptyIn cells),
               numMatching = numMatchingIn cellToUser cells \<rparr>) propToCellToUser) pods)"

definition compareNumMatching :: "typeDatum \<Rightarrow> typeDatum \<Rightarrow> int" where
  "compareNumMatching a b =
     (if numMatching a < numMatching b then 1
      else if numMatching b < numMatching a then - 1 else 0)"

text \<open>Reading \<open>bestMatch.numMatching\<close> of an empty \<open>typeData\<close> throws.\<close>

definition classifyColumn :: "pods \<Rightarrow> string list \<Rightarrow> error + typeAndProp" where
  "classifyColumn pods cells =
     (case jsSort compareNumMatching (typeDataOf pods cells) of
        [] \<Rightarrow> Inl TypeError
      | bestMatch # _ \<Rightarrow>
          Inr (if int (numMatching bestMatch) < minToMatch bestMatch
               then \<lparr> type' = DATA, prop' = None \<rparr>
               else \<lparr> type' = type' bestMatch, prop' = prop' bestMatch \<rparr>))"

fun classifyColumns :: "pods \<Rightarrow> string list list \<Rightarrow> nat list \<Rightarrow> error + typeAndProp list" where
  "classifyColumns pods rws [] = Inr []"
| "classifyColumns pods rws (colIndex # rest) =
     (case classifyColumn pods (map (\<lambda>row. row ! colIndex) rws) of
        Inl e \<Rightarrow> Inl e
      | Inr tp \<Rightarrow>
          (case classifyColumns pods rws rest of
             Inl e \<Rightarrow> Inl e
           | Inr tps \<Rightarrow> Inr (tp # tps)))"

definition podsOf :: "simpleObject list \<Rightarrow> simpleObject list \<Rightarrow> pods" where
  "podsOf studs ttms =
     [(genPropToCellToUser studs, STUDENT), (genPropToCellToUser ttms, TEACHING_TEAM_MEMBER)]"

text \<open>\<open>colIndexToTypeAndProp\<close>, column by column.\<close>

definition colIndexToTypeAndPropOf ::
  "simpleObject list \<Rightarrow> simpleObject list \<Rightarrow> csvTable \<Rightarrow> error + typeAndProp list" where
  "colIndexToTypeAndPropOf studs ttms table =
     classifyColumns (podsOf studs ttms) (rows table) [0..<length (headers table)]"

section \<open>index: matching the rows\<close>

text \<open>
  The body of \<open>row.forEach\<close>. The two \<open>Set\<close>s hold objects of the rosters; two
  objects of one roster that are equal in every property are never both returned by the
  lookup map, so comparing them by value is comparing them by reference.
\<close>

definition matchCell ::
  "searchFunctions \<Rightarrow> searchFunctions \<Rightarrow> typeAndProp list \<Rightarrow> rowMatch \<Rightarrow> string \<times> nat
     \<Rightarrow> rowMatch" where
  "matchCell sfS sfT colIndexToTypeAndProp acc cellAndIndex =
     (let tp = colIndexToTypeAndProp ! snd cellAndIndex
      in if type' tp = DATA then acc
         else (case getMatch (if type' tp = STUDENT then sfS else sfT) (prop' tp)
                      (fst cellAndIndex) of
                 None \<Rightarrow> acc
               | Some match \<Rightarrow>
                   if type' tp = STUDENT
                   then acc\<lparr>studentMatches := setAdd (studentMatches acc) match\<rparr>
                   else acc\<lparr>teachingTeamMemberMatches :=
                              setAdd (teachingTeamMemberMatches acc) match\<rparr>))"

definition matchRow ::
  "searchFunctions \<Rightarrow> searchFunctions \<Rightarrow> typeAndProp list \<Rightarrow> string list \<Rightarrow> rowMatch" where
  "matchRow sfS sfT colIndexToTypeAndProp row =
     foldl (matchCell sfS sfT colIndexToTypeAndProp)
       \<lparr> studentMatches = [], teachingTeamMemberMatches = [] \<rparr>
       (zip row [0..<length row])"

definition rowMatchesOf ::
  "searchFunctions \<Rightarrow> searchFunctions \<Rightarrow> typeAndProp list \<Rightarrow> string list list
     \<Rightarrow> rowMatch list" where
  "rowMatchesOf sfS sfT colIndexToTypeAndProp rws =
     map (matchRow sfS sfT colIndexToTypeAndProp) rws"

section \<open>index: the number of people per row\<close>

definition defaultNumPerRow :: "jsval \<Rightarrow> jsval" where
  "defaultNumPerRow v = (if v \<noteq> JUndefined \<and> v \<noteq> JNull then v else AUTO_DETECT)"

text \<open>Only rows with at least one match are averaged.\<close>

definition rowsInCount :: "rowMatch list \<Rightarrow> rowMatch list" where
  "rowsInCount rowMatches =
     filter (\<lambda>rowMatch. 0 < length (studentMatches rowMatch)
                       \<or> 0 < length (teachingTeamMemberMatches rowMatch)) rowMatches"

definition totalNumStudents :: "rowMatch list \<Rightarrow> nat" where
  "totalNumStudents rowMatches =
     sum_list (map (\<lambda>rowMatch. length (studentMatches rowMatch)) (rowsInCount rowMatches))"

definition totalNumTeachingTeamMembers :: "rowMatch list \<Rightarrow> nat" where
  "totalNumTeachingTeamMembers rowMatches =
     sum_list (map (\<lambda>rowMatch. length (teachingTeamMemberMatches rowMatch))
                 (rowsInCount rowMatches))"

definition numRowsInCount :: "rowMatch list \<Rightarrow> nat" where
  "numRowsInCount rowMatches = length (rowsInCount rowMatches)"

text \<open>\<open>Math.round(total / numRowsInCount)\<close>\<close>

definition roundedAverage :: "nat \<Rightarrow> nat \<Rightarrow> jsval" where
  "roundedAverage totalNum n =
     (case jsDivide totalNum n of None \<Rightarrow> JNaN | Some q \<Rightarrow> JNum (mathRound q))"

definition autoDetect :: "jsval \<Rightarrow> nat \<Rightarrow> nat \<Rightarrow> jsval" where
  "autoDetect numPerRow totalNum n =
     (if strictEq numPerRow AUTO_DETECT then roundedAverage totalNum n else numPerRow)"

section \<open>index: the only-once rule\<close>

definition disqualifiedMessage :: "colType \<Rightarrow> simpleObject \<Rightarrow> string" where
  "disqualifiedMessage t u =
     ''Each '' @ colTypeName t @ '' can only show up once in your CSV, but ''
       @ String_of (fullName u) @ '' showed up more than once.''"

text \<open>
  The body of \<open>users.forEach\<close> in \<open>findDisqualified\<close>; the state is the keys of
  \<open>alreadySeen\<close> and the map \<open>isDisqualified\<close>.
\<close>

definition seeUser ::
  "colType \<Rightarrow> string list \<times> (string \<rightharpoonup> string) \<Rightarrow> simpleObject
     \<Rightarrow> string list \<times> (string \<rightharpoonup> string)" where
  "seeUser t st u =
     (if String_of (canvasId u) \<in> set (fst st)
      then (fst st, (snd st)(String_of (canvasId u) \<mapsto> disqualifiedMessage t u))
      else (String_of (canvasId u) # fst st, snd st))"

definition usersOfType :: "colType \<Rightarrow> rowMatch \<Rightarrow> simpleObject list" where
  "usersOfType t rowMatch =
     (if t = STUDENT then studentMatches rowMatch else teachingTeamMemberMatches rowMatch)"

definition findDisqualified ::
  "colType \<Rightarrow> rowMatch list \<Rightarrow> (string \<rightharpoonup> string) \<Rightarrow> (string \<rightharpoonup> string)" where
  "findDisqualified t rowMatches isDisqualified =
     snd (foldl (\<lambda>st rowMatch. foldl (seeUser t) st (usersOfType t rowMatch))
            ([], isDisqualified) rowMatches)"

definition isDisqualifiedOf :: "bool \<Rightarrow> bool \<Rightarrow> rowMatch list \<Rightarrow> (string \<rightharpoonup> string)" where
  "isDisqualifiedOf sOnce tOnce rowMatches =
     (let d1 = (if sOnce then findDisqualified STUDENT rowMatches Map.empty else Map.empty)
      in if tOnce then findDisqualified TEACHING_TEAM_MEMBER rowMatches d1 else d1)"

section \<open>index: matched and unmatched rows\<close>

definition genNumPerRowErrorMessage :: "colType \<Rightarrow> jsval \<Rightarrow> nat \<Rightarrow> string option" where
  "genNumPerRowErrorMessage t expected actual =
     (if strictEq expected ANY_NUMBER then None
      else if strictEq expected AT_LEAST_ONE
      then (if 0 < actual then None
            else Some (''There should be at least one '' @ colTypeName t
                        @ '' in this row but we couldn'' @ [CHR 0x27] @ ''t find any.''))
      else if strictEq expected (JNum (int actual)) then None
      else Some (''There should be '' @ String_of expected @ '' '' @ colTypeName t
                  @ (if strictEq expected (JNum 1) then [] else ''s'')
                  @ '' in this row but instead, but we found ''
                  @ String_of (JNum (int actual)) @ '' instead.''))"

text \<open>\<open>if (message) unmatchedErrors.push(message)\<close>\<close>

definition pushIfTruthy :: "string option \<Rightarrow> string list" where
  "pushIfTruthy message =
     (case message of None \<Rightarrow> [] | Some m \<Rightarrow> if m = [] then [] else [m])"

definition unmatchedErrorsOf ::
  "(string \<rightharpoonup> string) \<Rightarrow> jsval \<Rightarrow> jsval \<Rightarrow> rowMatch \<Rightarrow> string list" where
  "unmatchedErrorsOf isDisqualified nStudents nTeachingTeamMembers rowMatch =
     concat (map (\<lambda>users.
               concat (map (\<lambda>u. pushIfTruthy (isDisqualified (String_of (canvasId u)))) users))
             [studentMatches rowMatch, teachingTeamMemberMatches rowMatch])
     @ pushIfTruthy (genNumPerRowErrorMessage STUDENT nStudents
                       (length (studentMatches rowMatch)))
     @ pushIfTruthy (genNumPerRowErrorMessage TEACHING_TEAM_MEMBER nTeachingTeamMembers
                       (length (teachingTeamMemberMatches rowMatch)))"

text \<open>The cells, or the headers, of the data columns.\<close>

definition dataColumnsOf :: "typeAndProp list \<Rightarrow> string list \<Rightarrow> string list" where
  "dataColumnsOf colIndexToTypeAndProp row =
     map fst (filter (\<lambda>cellAndIndex. type' (colIndexToTypeAndProp ! snd cellAndIndex) = DATA)
                (zip row [0..<length row]))"

text \<open>One turn of \<open>rowMatches.forEach\<close>: the row goes to one of the two lists.\<close>

definition resolveRow ::
  "(string \<rightharpoonup> string) \<Rightarrow> jsval \<Rightarrow> jsval \<Rightarrow> typeAndProp list \<Rightarrow> string list list
     \<Rightarrow> nat \<times> rowMatch \<Rightarrow> simpleObject matchedRow + simpleObject unmatchedRow" where
  "resolveRow isDisqualified nStudents nTeachingTeamMembers colIndexToTypeAndProp rws ir =
     (let unmatchedErrors =
            unmatchedErrorsOf isDisqualified nStudents nTeachingTeamMembers (snd ir);
          raw = rws ! fst ir
      in if 0 < length unmatchedErrors
         then Inr \<lparr> rawRow = raw, dataColumns = dataColumnsOf colIndexToTypeAndProp raw,
                    rowIndex = fst ir, errors = unmatchedErrors,
                    potentialStudents = [], potentialTeachingTeamMembers = [] \<rparr>
         else Inl \<lparr> rawRow = raw, dataColumns = dataColumnsOf colIndexToTypeAndProp raw,
                    rowIndex = fst ir, rowStudents = studentMatches (snd ir),
                    rowTeachingTeamMembers = teachingTeamMemberMatches (snd ir) \<rparr>)"

definition resolveRows ::
  "(string \<rightharpoonup> string) \<Rightarrow> jsval \<Rightarrow> jsval \<Rightarrow> typeAndProp list \<Rightarrow> string list list
     \<Rightarrow> rowMatch list \<Rightarrow> (simpleObject matchedRow + simpleObject unmatchedRow) list" where
  "resolveRows isDisqualified nStudents nTeachingTeamMembers colIndexToTypeAndProp rws rowMatches =
     map (resolveRow isDisqualified nStudents nTeachingTeamMembers colIndexToTypeAndProp rws)
       (zip [0..<length rowMatches] rowMatches)"

definition matchedRowsOf :: "('a + 'b) list \<Rightarrow> 'a list" where
  "matchedRowsOf rs = concat (map (\<lambda>r. case r of Inl m \<Rightarrow> [m] | Inr u \<Rightarrow> []) rs)"

definition unmatchedRowsOf :: "('a + 'b) list \<Rightarrow> 'b list" where
  "unmatchedRowsOf rs = concat (map (\<lambda>r. case r of Inl m \<Rightarrow> [] | Inr u \<Rightarrow> [u]) rs)"

section \<open>index: suggestions for the unmatched rows\<close>

definition findExcluded :: "colType \<Rightarrow> simpleObject matchedRow list \<Rightarrow> simpleObject list" where
  "findExcluded t mrs =
     concat (map (\<lambda>matchedRow. if t = STUDENT then rowStudents matchedRow
                               else rowTeachingTeamMembers matchedRow) mrs)"

definition usersToExcludeOf :: "bool \<Rightarrow> bool \<Rightarrow> simpleObject matchedRow list \<Rightarrow> simpleObject list"
  where
  "usersToExcludeOf sOnce tOnce mrs =
     (if sOnce then findExcluded STUDENT mrs else [])
     @ (if tOnce then findExcluded TEACHING_TEAM_MEMBER mrs else [])"

definition addPotentialUsers ::
  "searchFunctions \<Rightarrow> searchFunctions \<Rightarrow> simpleObject list \<Rightarrow> simpleObject unmatchedRow
     \<Rightarrow> simpleObject unmatchedRow" where
  "addPotentialUsers sfS sfT usersToExclude unmatchedRow =
     unmatchedRow
       \<lparr> potentialStudents := getConfidenceRatings sfS (rawRow unmatchedRow) usersToExclude,
         potentialTeachingTeamMembers :=
           getConfidenceRatings sfT (rawRow unmatchedRow) usersToExclude \<rparr>"

section \<open>index: wrap up\<close>

text \<open>\<open>idToFullUser\<close>: the students are written first, the teaching team after.\<close>

definition idToFullUser :: "canvasUser list \<Rightarrow> canvasUser list \<Rightarrow> (string \<rightharpoonup> canvasUser)" where
  "idToFullUser studs ttms =
     foldl (\<lambda>m u. m(String_of (user_id u) \<mapsto> u)) Map.empty (studs @ ttms)"

fun propNameMap :: "propKey \<Rightarrow> string" where
  "propNameMap CanvasId = ''canvas-id''"
| "propNameMap FullName = ''name''"
| "propNameMap SortableName = ''sortable-name''"
| "propNameMap SisUserId = ''university-id''"
| "propNameMap LoginId = ''login-id''"
| "propNameMap Email = ''email''"

definition colTypeOf :: "typeAndProp \<Rightarrow> colTypeOut" where
  "colTypeOf tp = \<lparr> outType = type' tp, property = map_option propNameMap (prop' tp) \<rparr>"

definition fullMatchedRow ::
  "(string \<rightharpoonup> canvasUser) \<Rightarrow> simpleObject matchedRow \<Rightarrow> canvasUser option matchedRow" where
  "fullMatchedRow full matchedRow =
     \<lparr> rawRow = rawRow matchedRow, dataColumns = dataColumns matchedRow,
       rowIndex = rowIndex matchedRow,
       rowStudents = map (\<lambda>student. full (String_of (canvasId student))) (rowStudents matchedRow),
       rowTeachingTeamMembers =
         map (\<lambda>teachingTeamMember. full (String_of (canvasId teachingTeamMember)))
           (rowTeachingTeamMembers matchedRow) \<rparr>"

definition fullRating :: "(string \<rightharpoonup> canvasUser) \<Rightarrow> simpleObject rating \<Rightarrow> canvasUser option rating"
  where
  "fullRating full obj =
     \<lparr> user' = full (String_of (canvasId (user' obj))), confidence = confidence obj \<rparr>"

definition fullUnmatchedRow ::
  "(string \<rightharpoonup> canvasUser) \<Rightarrow> simpleObject unmatchedRow \<Rightarrow> canvasUser option unmatchedRow" where
  "fullUnmatchedRow full unmatchedRow =
     \<lparr> rawRow = rawRow unmatchedRow, dataColumns = dataColumns unmatchedRow,
       rowIndex = rowIndex unmatchedRow, errors = errors unmatchedRow,
       potentialStudents = map (fullRating full) (potentialStudents unmatchedRow),
       potentialTeachingTeamMembers =
         map (fullRating full) (potentialTeachingTeamMembers unmatchedRow) \<rparr>"

section \<open>index: the whole run\<close>

text \<open>
  The run in the order of the source, each step handing the constants it computed to the
  next: the returned object, after everything in it is known;
\<close>

definition wrapUp ::
  "opts \<Rightarrow> csvTable \<Rightarrow> searchFunctions \<Rightarrow> searchFunctions \<Rightarrow> typeAndProp list \<Rightarrow> jsval \<Rightarrow> jsval
     \<Rightarrow> simpleObject matchedRow list \<Rightarrow> simpleObject unmatchedRow list \<Rightarrow> simpleObject list
     \<Rightarrow> (string \<rightharpoonup> canvasUser) \<Rightarrow> result" where
  "wrapUp os table sfS sfT colIndexToTypeAndProp nStudents nTeachingTeamMembers mrs urs
     usersToExclude full =
     \<lparr> colTypes = map colTypeOf colIndexToTypeAndProp,
       dataHeaders = dataColumnsOf colIndexToTypeAndProp (headers table),
       usedNumStudentsPerRow = nStudents,
       usedNumTeachingTeamMembersPerRow = nTeachingTeamMembers,
       matchedRows = map (fullMatchedRow full) mrs,
       unmatchedRows =
         map (\<lambda>unmatchedRow.
                fullUnmatchedRow full (addPotentialUsers sfS sfT usersToExclude unmatchedRow)) urs,
       processedCsv = table \<rparr>"

text \<open>the suggestions, after the two lists are separated;\<close>

definition afterSeparation ::
  "opts \<Rightarrow> csvTable \<Rightarrow> searchFunctions \<Rightarrow> searchFunctions \<Rightarrow> typeAndProp list \<Rightarrow> jsval \<Rightarrow> jsval
     \<Rightarrow> (simpleObject matchedRow + simpleObject unmatchedRow) list \<Rightarrow> result" where
  "afterSeparation os table sfS sfT colIndexToTypeAndProp nStudents nTeachingTeamMembers resolved =
     wrapUp os table sfS sfT colIndexToTypeAndProp nStudents nTeachingTeamMembers
       (matchedRowsOf resolved) (unmatchedRowsOf resolved)
       (usersToExcludeOf (studentOnlyOnce os) (teachingTeamMemberOnlyOnce os)
          (matchedRowsOf resolved))
       (idToFullUser (students os) (teachingTeamMembers os))"

text \<open>the numbers per row, the only-once rule and the two lists, after the rows are matched;\<close>

definition numStudentsPerRowOf :: "opts \<Rightarrow> rowMatch list \<Rightarrow> jsval" where
  "numStudentsPerRowOf os rowMatches =
     autoDetect (defaultNumPerRow (numStudentsPerRow os))
       (totalNumStudents rowMatches) (numRowsInCount rowMatches)"

definition numTeachingTeamMembersPerRowOf :: "opts \<Rightarrow> rowMatch list \<Rightarrow> jsval" where
  "numTeachingTeamMembersPerRowOf os rowMatches =
     autoDetect (defaultNumPerRow (numTeachingTeamMembersPerRow os))
       (totalNumTeachingTeamMembers rowMatches) (numRowsInCount rowMatches)"

definition resolvedRowsOf ::
  "opts \<Rightarrow> csvTable \<Rightarrow> typeAndProp list \<Rightarrow> rowMatch list
     \<Rightarrow> (simpleObject matchedRow + simpleObject unmatchedRow) list" where
  "resolvedRowsOf os table colIndexToTypeAndProp rowMatches =
     resolveRows
       (isDisqualifiedOf (studentOnlyOnce os) (teachingTeamMemberOnlyOnce os) rowMatches)
       (numStudentsPerRowOf os rowMatches) (numTeachingTeamMembersPerRowOf os rowMatches)
       colIndexToTypeAndProp (rows table) rowMatches"

definition afterMatching ::
  "opts \<Rightarrow> csvTable \<Rightarrow> searchFunctions \<Rightarrow> searchFunctions \<Rightarrow> typeAndProp list
     \<Rightarrow> rowMatch list \<Rightarrow> result" where
  "afterMatching os table sfS sfT colIndexToTypeAndProp rowMatches =
     afterSeparation os table sfS sfT colIndexToTypeAndProp
       (numStudentsPerRowOf os rowMatches) (numTeachingTeamMembersPerRowOf os rowMatches)
       (resolvedRowsOf os table colIndexToTypeAndProp rowMatches)"

text \<open>the matching, after the column types are known;\<close>

definition afterColumnTypes ::
  "opts \<Rightarrow> csvTable \<Rightarrow> searchFunctions \<Rightarrow> searchFunctions \<Rightarrow> typeAndProp list \<Rightarrow> result" where
  "afterColumnTypes os table sfS sfT colIndexToTypeAndProp =
     afterMatching os table sfS sfT colIndexToTypeAndProp
       (rowMatchesOf sfS sfT colIndexToTypeAndProp (rows table))"

text \<open>and the start: the check of the rosters and the column types.\<close>

definition processTable ::
  "opts \<Rightarrow> csvTable \<Rightarrow> simpleObject list \<Rightarrow> simpleObject list \<Rightarrow> error + result" where
  "processTable os table studs ttms =
     (if studs = [] \<and> ttms = [] then Inl NoUsersToMatchWith
      else (case colIndexToTypeAndPropOf studs ttms table of
              Inl e \<Rightarrow> Inl e
            | Inr colIndexToTypeAndProp \<Rightarrow>
                Inr (afterColumnTypes os table (genSearchFunctions studs)
                       (genSearchFunctions ttms) colIndexToTypeAndProp)))"

text \<open>
  \<open>module.exports = (opts) => ...\<close>: the table is pre-processed first, then the two
  rosters. \<open>None\<close> when the pre-processing of a roster runs forever, otherwise the error
  thrown or the object returned.
\<close>

definition matchCSV :: "opts \<Rightarrow> (error + result) option" where
  "matchCSV os =
     (case preProcessCSV (csv os) of
        Inl e \<Rightarrow> Some (Inl e)
      | Inr table \<Rightarrow>
          (case preProcessUsers (students os) of
             None \<Rightarrow> None
           | Some studs \<Rightarrow>
               (case preProcessUsers (teachingTeamMembers os) of
                  None \<Rightarrow> None
                | Some ttms \<Rightarrow> Some (processTable os table studs ttms))))"

section \<open>Example rosters and tables\<close>

definition sam1 :: simpleObject where
  "sam1 = \<lparr> canvasId = JNum 1, fullName = JStr ''sam'', sortableName = JStr ''lee, sam'',
            sisUserId = JStr ''s1'', loginId = JStr ''slee'', email = JStr ''slee@x.edu'' \<rparr>"

definition sam2 :: simpleObject where
  "sam2 = \<lparr> canvasId = JNum 2, fullName = JStr ''sam'', sortableName = JStr ''roy, sam'',
            sisUserId = JStr ''s2'', loginId = JStr ''sroy'', email = JStr ''sroy@x.edu'' \<rparr>"

definition sam3 :: simpleObject where
  "sam3 = \<lparr> canvasId = JNum 3, fullName = JStr ''sam'', sortableName = JStr ''kim, sam'',
            sisUserId = JStr ''s3'', loginId = JStr ''skim'', email = JStr ''skim@x.edu'' \<rparr>"

definition alice :: canvasUser where
  "alice = \<lparr> user_id = JNum 1, name = JStr ''Alice Ames'', sortable_name = JStr ''Ames, Alice'',
             sis_user_id = JStr ''s1'', login_id = JStr ''aames'',
             user_email = JStr ''alice@x.edu'', other_fields = ''avatar'' \<rparr>"

definition bob :: canvasUser where
  "bob = \<lparr> user_id = JNum 2, name = JStr ''Bob Bell'', sortable_name = JStr ''Bell, Bob'',
           sis_user_id = JStr ''s2'', login_id = JStr ''bbell'',
           user_email = JStr ''bob@x.edu'', other_fields = [] \<rparr>"

definition idIsName :: canvasUser where
  "idIsName = \<lparr> user_id = JStr ''u1'', name = JStr ''U1'', sortable_name = JStr ''One, U'',
                sis_user_id = JStr ''s1'', login_id = JStr ''one'', user_email = JStr ''u@x.org'',
                other_fields = [] \<rparr>"

definition ann :: canvasUser where
  "ann = \<lparr> user_id = JNum 5, name = JStr ''Ann Lee'', sortable_name = JStr ''Lee, Ann'',
           sis_user_id = JNull, login_id = JNull, user_email = JNull, other_fields = [] \<rparr>"

definition bea :: canvasUser where
  "bea = \<lparr> user_id = JNum 6, name = JStr ''Bea Moss'', sortable_name = JStr ''Moss, Bea'',
           sis_user_id = JNull, login_id = JUndefined, user_email = JStr [], other_fields = [] \<rparr>"

definition noMail :: canvasUser where
  "noMail = \<lparr> user_id = JNum 7, name = JStr ''Di Do'', sortable_name = JStr ''Do, Di'',
              sis_user_id = JStr ''s7'', login_id = JStr ''dido'', user_email = JNull,
              other_fields = [] \<rparr>"

definition twin :: canvasUser where
  "twin = \<lparr> user_id = JNum 8, name = JStr ''Ed Eck'', sortable_name = JStr ''Eck, Ed'',
            sis_user_id = JStr ''eeck'', login_id = JStr ''eeck'', user_email = JStr ''ed@x.org'',
            other_fields = [] \<rparr>"

definition badOpts :: opts where
  "badOpts = \<lparr> csv = CsvObject (Some [''Login'']) (Some [[''dido'']]), students = [noMail],
      teachingTeamMembers = [], studentOnlyOnce = False, teachingTeamMemberOnlyOnce = False,
      numStudentsPerRow = JStr ''one'', numTeachingTeamMembersPerRow = JUndefined \<rparr>"

definition blankOpts :: opts where
  "blankOpts = \<lparr> csv = CsvObject (Some [''Login'', ''Note'']) (Some [[''aames'', '' '']]),
      students = [alice], teachingTeamMembers = [], studentOnlyOnce = False,
      teachingTeamMemberOnlyOnce = False, numStudentsPerRow = JUndefined,
      numTeachingTeamMembersPerRow = JUndefined \<rparr>"

definition blankMailOpts :: opts where
  "blankMailOpts = \<lparr> csv = CsvObject (Some [''Login'', ''Note'']) (Some [[''dido'', '' '']]),
      students = [noMail], teachingTeamMembers = [], studentOnlyOnce = False,
      teachingTeamMemberOnlyOnce = False, numStudentsPerRow = JUndefined,
      numTeachingTeamMembersPerRow = JUndefined \<rparr>"

definition twiceOpts :: opts where
  "twiceOpts = \<lparr> csv = CsvObject (Some [''Name''])
                             (Some [[''di do''], [''ed eck''], [''di do'']]),
      students = [noMail, twin], teachingTeamMembers = [], studentOnlyOnce = True,
      teachingTeamMemberOnlyOnce = False, numStudentsPerRow = JUndefined,
      numTeachingTeamMembersPerRow = JUndefined \<rparr>"

section \<open>Basic facts\<close>

lemma removeDuplicateProps_done:
  "findSecondPropOfDuplicate objs = None \<Longrightarrow> removeDuplicateProps objs = Some objs"
  by (subst removeDuplicateProps.simps) simp

lemma removeDuplicateProps_step:
  "findSecondPropOfDuplicate objs = Some p
   \<Longrightarrow> removeDuplicateProps objs = removeDuplicateProps (map (setUndefined p) objs)"
  by (subst removeDuplicateProps.simps) simp

lemma map_of_setKey: "map_of (setKey k v m) k' = (if k' = k then Some v else map_of m k')"
  by (induction m) auto

lemma cellsOf_setKey: "cellsOf (setKey k v m) k' = (if k' = k then v else cellsOf m k')"
  by (simp add: cellsOf_def map_of_setKey)

lemma cellsOf_addProp:
  "cellsOf (addProp u m p) p' c =
     (if p' = p \<and> c = cellOf u p
      then (if hasUser (cellsOf m p) c then Some Null else Some (User u))
      else cellsOf m p' c)"
  by (simp add: addProp_def cellsOf_setKey)

lemma props_all: "p \<in> set props"
  by (cases p) (simp_all add: props_def)

text \<open>Two equations that make evaluation quicker: lower case by bits, and the small bars.\<close>

lemma toLowerChar_code [code]:
  "toLowerChar (Char b0 b1 b2 b3 b4 b5 b6 b7) =
     (if \<not> b7 \<and> b6 \<and> \<not> b5 \<and> (b0 \<or> b1 \<or> b2 \<or> b3 \<or> b4)
           \<and> \<not> (b4 \<and> b3 \<and> (b2 \<or> (b1 \<and> b0)))
      then Char b0 b1 b2 b3 b4 True b6 b7 else Char b0 b1 b2 b3 b4 b5 b6 b7)"
  by (cases b0; cases b1; cases b2; cases b3; cases b4; cases b5; cases b6; cases b7)
     (simp_all add: toLowerChar_def char_of_def bit_Suc_0_iff)

lemma minToMatchOf_code [code]:
  "minToMatchOf n =
     (if n < 3 then 0 else mathFloor (jsTimes (of_nat n) (toDouble (4 / 10))))"
proof (cases "n < 3")
  case True
  then have "n = 0 \<or> n = 1 \<or> n = 2" by arith
  moreover have "minToMatchOf 0 = 0" "minToMatchOf 1 = 0" "minToMatchOf 2 = 0"
    by code_simp+
  ultimately show ?thesis by auto
next
  case False
  then show ?thesis by (simp add: minToMatchOf_def)
qed

section \<open>The run returns\<close>

lemma keys_setKey:
  "objectKeys (setKey k v m) = (if k \<in> set (objectKeys m) then objectKeys m else objectKeys m @ [k])"
  unfolding objectKeys_def by (induction m) force+

lemma keys_addProp:
  "objectKeys (addProp u m p) = (if p \<in> set (objectKeys m) then objectKeys m else objectKeys m @ [p])"
  by (simp add: addProp_def keys_setKey)

lemma keys_empty: "objectKeys [] = []"
  by (simp add: objectKeys_def)

lemma keys_addUser_empty: "objectKeys (addUser [] u) = props"
  by (simp add: addUser_def props_def keys_addProp keys_empty)

lemma keys_foldl_addProp_full:
  "set ps \<subseteq> set (objectKeys m) \<Longrightarrow> objectKeys (foldl (addProp u) m ps) = objectKeys m"
proof (induction ps arbitrary: m)
  case Nil
  then show ?case by simp
next
  case (Cons p ps)
  from Cons.prems have k: "objectKeys (addProp u m p) = objectKeys m" by (simp add: keys_addProp)
  with Cons.prems have "set ps \<subseteq> set (objectKeys (addProp u m p))" by simp
  from Cons.IH [OF this] k show ?case by simp
qed

lemma keys_addUser_full: "objectKeys m = props \<Longrightarrow> objectKeys (addUser m u) = props"
  using keys_foldl_addProp_full [of props m u] by (simp add: addUser_def)

lemma keys_foldl_addUser: "objectKeys m = props \<Longrightarrow> objectKeys (foldl addUser m us) = props"
  by (induction us arbitrary: m) (simp_all add: keys_addUser_full)

lemma keys_genPropToCellToUser:
  "objectKeys (genPropToCellToUser users) = (if users = [] then [] else props)"
proof (cases users)
  case Nil
  then show ?thesis by (simp add: genPropToCellToUser_def keys_empty)
next
  case (Cons u us)
  then show ?thesis
    by (simp add: genPropToCellToUser_def keys_foldl_addUser keys_addUser_empty)
qed

lemma genPropToCellToUser_empty_iff: "(genPropToCellToUser users = []) = (users = [])"
proof -
  have "(genPropToCellToUser users = []) = (objectKeys (genPropToCellToUser users) = [])"
    by (simp add: objectKeys_def)
  then show ?thesis by (simp add: keys_genPropToCellToUser props_def)
qed

lemma length_insertSorted: "length (insertSorted c x ys) = Suc (length ys)"
  by (induction ys) auto

lemma length_jsSort: "length (jsSort c xs) = length xs"
  by (induction xs) (simp_all add: jsSort_def length_insertSorted)

lemma set_insertSorted: "set (insertSorted c x ys) = insert x (set ys)"
  by (induction ys) auto

lemma set_jsSort: "set (jsSort c xs) = set xs"
  by (induction xs) (simp_all add: jsSort_def set_insertSorted)

lemma typeDataOf_empty_iff:
  "(typeDataOf (podsOf studs ttms) cells = []) = (studs = [] \<and> ttms = [])"
  by (auto simp add: typeDataOf_def podsOf_def genPropToCellToUser_empty_iff)

lemma classifyColumn_Inr:
  assumes "\<not> (studs = [] \<and> ttms = [])"
  shows "\<exists>tp. classifyColumn (podsOf studs ttms) cells = Inr tp"
proof -
  from assms have "typeDataOf (podsOf studs ttms) cells \<noteq> []"
    by (simp add: typeDataOf_empty_iff)
  then have "length (jsSort compareNumMatching (typeDataOf (podsOf studs ttms) cells)) \<noteq> 0"
    by (simp add: length_jsSort)
  then obtain b bs where "jsSort compareNumMatching (typeDataOf (podsOf studs ttms) cells) = b # bs"
    by (cases "jsSort compareNumMatching (typeDataOf (podsOf studs ttms) cells)") auto
  then show ?thesis by (simp add: classifyColumn_def)
qed

lemma classifyColumns_Inr:
  assumes "\<not> (studs = [] \<and> ttms = [])"
  shows "\<exists>tps. classifyColumns (podsOf studs ttms) rws cols = Inr tps"
proof (induction cols)
  case Nil
  then show ?case by simp
next
  case (Cons c cols)
  from classifyColumn_Inr [OF assms] obtain tp
    where "classifyColumn (podsOf studs ttms) (map (\<lambda>row. row ! c) rws) = Inr tp" by blast
  with Cons show ?case by auto
qed

lemma processTable_returns:
  "\<not> (studs = [] \<and> ttms = []) \<Longrightarrow> \<exists>res. processTable os table studs ttms = Inr res"
  using classifyColumns_Inr [of studs ttms "rows table" "[0..<length (headers table)]"]
  by (auto simp add: processTable_def colIndexToTypeAndPropOf_def)

lemma processTable_throws:
  "studs = [] \<and> ttms = [] \<Longrightarrow> processTable os table studs ttms = Inl NoUsersToMatchWith"
  by (simp add: processTable_def)

lemma removeDuplicateProps_length:
  "removeDuplicateProps objs = Some objs' \<Longrightarrow> length objs' = length objs"
proof (induction arbitrary: objs objs' rule: removeDuplicateProps.fixp_induct)
  case 1
  then show ?case by (rule option_admissible [where P = "\<lambda>x y. length y = length x", simplified])
next
  case 2
  then show ?case by simp
next
  case (3 f)
  then show ?case by (auto split: option.splits)
qed

lemma preProcessUsers_empty_iff:
  "preProcessUsers users = Some objs \<Longrightarrow> (objs = []) = (users = [])"
  using removeDuplicateProps_length [of "map toSimpleObject users" objs]
  by (auto simp add: preProcessUsers_def)

lemma matchCSV_cases:
  assumes "preProcessCSV (csv os) = Inr table"
    and "preProcessUsers (students os) = Some studs"
    and "preProcessUsers (teachingTeamMembers os) = Some ttms"
  shows "matchCSV os = Some (processTable os table studs ttms)"
  using assms by (simp add: matchCSV_def)

section \<open>The lookup map: ambiguity\<close>

text \<open>
  C2. Two users with one value for one prop leave \<open>null\<close> in the lookup map, and the claim
  is that the entry stays \<open>null\<close> whoever comes after. The code tests the entry for
  truthiness, and \<open>null\<close> is falsy: a third user with the same value is written into the
  entry as if it were the first. Three users called "sam": after two the entry is
  \<open>null\<close>, after three it is the third user.
\<close>

theorem genPropToCellToUser_third_owner:
  "cellsOf (genPropToCellToUser [sam1, sam2]) FullName ''sam'' = Some Null
   \<and> cellsOf (genPropToCellToUser [sam1, sam2, sam3]) FullName ''sam'' = Some (User sam3)
   \<and> getMatch (genSearchFunctions [sam1, sam2, sam3]) (Some FullName) ''sam'' = Some sam3"
  by code_simp

section \<open>The lookup map: blank and removed fields\<close>

lemma numMatchingIn_blank_cells:
  "\<forall>cell\<in>set cells. trim cell = []
   \<Longrightarrow> numMatchingIn cellToUser cells = (if hasUser cellToUser [] then length cells else 0)"
  by (simp add: numMatchingIn_def toLowerCase_def)










section \<open>The exact match\<close>

text \<open>
  C1. The claim has the cell trimmed and lower-cased before the lookup, as the column
  classifier does when it counts. \<open>getMatch\<close> looks the cell up as it is. A table
  that holds the name as Canvas has it, "Alice Ames", has its column counted as a
  full-name column, with one matching cell, and the same cell matches nobody; only the
  lower-case spelling does.
\<close>

theorem getMatch_looks_up_raw_cell:
  "numMatchingIn (cellsOf (genPropToCellToUser [toSimpleObject alice]) FullName) [''Alice Ames'']
     = 1
   \<and> getMatch (genSearchFunctions [toSimpleObject alice]) (Some FullName) ''Alice Ames'' = None
   \<and> getMatch (genSearchFunctions [toSimpleObject alice]) (Some FullName) ''alice ames''
       = Some (toSimpleObject alice)"
  by code_simp

section \<open>The duplicate props\<close>

lemma removeDuplicateProps_diverges:
  assumes "findSecondPropOfDuplicate objs = Some p" and "map (setUndefined p) objs = objs"
  shows "removeDuplicateProps objs = None"
proof -
  have "\<forall>x y. removeDuplicateProps x = Some y \<longrightarrow> x \<noteq> objs"
  proof (rule removeDuplicateProps.fixp_induct)
    show "option.admissible (\<lambda>f. \<forall>x y. f x = Some y \<longrightarrow> x \<noteq> objs)"
      by (rule option_admissible)
  next
    show "\<forall>x y. None = Some y \<longrightarrow> x \<noteq> objs" by simp
  next
    fix f :: "simpleObject list \<Rightarrow> simpleObject list option"
    assume "\<forall>x y. f x = Some y \<longrightarrow> x \<noteq> objs"
    then show "\<forall>x y. (case findSecondPropOfDuplicate x of None \<Rightarrow> Some x
                      | Some secondProp \<Rightarrow> f (map (setUndefined secondProp) x)) = Some y
                 \<longrightarrow> x \<noteq> objs"
      using assms by (auto split: option.splits)
  qed
  then show ?thesis by (cases "removeDuplicateProps objs") auto
qed

lemma findSecondProp_None_iff:
  "(findSecondProp objs a ps = None) = (\<forall>b\<in>set ps. \<not> isDuplicate objs a b)"
  by (induction ps) auto

lemma findSecondProp_Some:
  "findSecondProp objs a ps = Some b \<Longrightarrow> b \<in> set ps \<and> isDuplicate objs a b"
  by (induction ps) (auto split: if_splits)

lemma findFirstProp_props_None:
  "(findFirstProp objs props = None) = (\<forall>a b. propIndex a < propIndex b \<longrightarrow> \<not> isDuplicate objs a b)"
proof
  assume "findFirstProp objs props = None"
  then have n: "\<not> isDuplicate objs CanvasId FullName" "\<not> isDuplicate objs CanvasId SortableName"
    "\<not> isDuplicate objs CanvasId SisUserId" "\<not> isDuplicate objs CanvasId LoginId"
    "\<not> isDuplicate objs CanvasId Email" "\<not> isDuplicate objs FullName SortableName"
    "\<not> isDuplicate objs FullName SisUserId" "\<not> isDuplicate objs FullName LoginId"
    "\<not> isDuplicate objs FullName Email" "\<not> isDuplicate objs SortableName SisUserId"
    "\<not> isDuplicate objs SortableName LoginId" "\<not> isDuplicate objs SortableName Email"
    "\<not> isDuplicate objs SisUserId LoginId" "\<not> isDuplicate objs SisUserId Email"
    "\<not> isDuplicate objs LoginId Email"
    by (auto simp add: props_def split: option.splits if_splits)
  show "\<forall>a b. propIndex a < propIndex b \<longrightarrow> \<not> isDuplicate objs a b"
  proof (intro allI impI)
    fix a b assume "propIndex a < propIndex b"
    then show "\<not> isDuplicate objs a b" using n by (cases a; cases b) simp_all
  qed
next
  assume "\<forall>a b. propIndex a < propIndex b \<longrightarrow> \<not> isDuplicate objs a b"
  then show "findFirstProp objs props = None"
    by (simp add: props_def)
qed

lemma findFirstProp_Some:
  "findFirstProp objs ps = Some q
   \<Longrightarrow> \<exists>pre a post. ps = pre @ a # post \<and> q \<in> set post \<and> isDuplicate objs a q"
proof (induction ps)
  case Nil
  then show ?case by simp
next
  case (Cons p ps)
  show ?case
  proof (cases "findSecondProp objs p ps")
    case None
    with Cons.prems have "findFirstProp objs ps = Some q" by simp
    from Cons.IH [OF this] obtain pre a post
      where "ps = pre @ a # post" "q \<in> set post" "isDuplicate objs a q" by blast
    then have "p # ps = (p # pre) @ a # post" by simp
    with \<open>q \<in> set post\<close> \<open>isDuplicate objs a q\<close> show ?thesis by blast
  next
    case (Some b)
    with Cons.prems have "b = q" by simp
    with Some findSecondProp_Some have "q \<in> set ps" "isDuplicate objs p q" by blast+
    moreover have "p # ps = [] @ p # ps" by simp
    ultimately show ?thesis by blast
  qed
qed

lemma props_sorted: "sorted_wrt (\<lambda>a b. propIndex a < propIndex b) props"
  by (simp add: props_def)

lemma findFirstProp_props_Some:
  assumes "findFirstProp objs props = Some q"
  shows "\<exists>a. propIndex a < propIndex q \<and> isDuplicate objs a q"
proof -
  from findFirstProp_Some [OF assms] obtain pre a post
    where d: "props = pre @ a # post" "q \<in> set post" "isDuplicate objs a q" by blast
  from props_sorted d(1) have "sorted_wrt (\<lambda>a b. propIndex a < propIndex b) (pre @ a # post)"
    by simp
  with d(2) have "propIndex a < propIndex q" by (auto simp add: sorted_wrt_append)
  with d(3) show ?thesis by blast
qed

lemma getProp_setUndefined:
  "getProp (setUndefined q obj) p = (if p = q then JUndefined else getProp obj p)"
  by (cases q; cases p) simp_all

lemma getProp_toSimpleObject:
  "p \<noteq> CanvasId \<Longrightarrow> \<exists>s. getProp (toSimpleObject u) p = JStr s"
  by (cases p) (simp_all add: toSimpleObject_def lowerField_def)

lemma isDuplicate_setUndefined_other:
  "a \<noteq> Y \<Longrightarrow> b \<noteq> Y \<Longrightarrow> isDuplicate (map (setUndefined Y) objs) a b = isDuplicate objs a b"
  by (induction objs) (simp_all add: isDuplicate_def getProp_setUndefined)

lemma isDuplicate_witness:
  "obj \<in> set objs \<Longrightarrow> \<not> strictEq (getProp obj a) (getProp obj b) \<Longrightarrow> \<not> isDuplicate objs a b"
  by (induction objs) (auto simp add: isDuplicate_def)

lemma not_strictEq_undefined_string [simp]:
  "\<not> strictEq JUndefined (JStr s)" "\<not> strictEq (JStr s) JUndefined"
  by (simp_all add: strictEq_def)

lemma removes_the_one_duplicate:
  assumes ne: "users \<noteq> []"
    and xy: "propIndex X < propIndex Y"
    and someId: "\<exists>u\<in>set users. user_id u \<noteq> JUndefined"
    and dup: "isDuplicate (map toSimpleObject users) X Y"
    and only: "\<forall>a b. propIndex a < propIndex b \<and> (a, b) \<noteq> (X, Y)
                \<longrightarrow> \<not> isDuplicate (map toSimpleObject users) a b"
  shows "preProcessUsers users = Some (map (\<lambda>u. setUndefined Y (toSimpleObject u)) users)"
proof -
  let ?objs = "map toSimpleObject users"
  let ?objs' = "map (setUndefined Y) ?objs"
  have "findFirstProp ?objs props \<noteq> None"
    using xy dup findFirstProp_props_None [of ?objs] by blast
  then obtain q where q: "findFirstProp ?objs props = Some q" by blast
  from findFirstProp_props_Some [OF q] obtain a
    where "propIndex a < propIndex q" "isDuplicate ?objs a q" by blast
  with only have "(a, q) = (X, Y)" by blast
  then have "q = Y" by simp
  with q ne have first: "findSecondPropOfDuplicate ?objs = Some Y"
    by (simp add: findSecondPropOfDuplicate_def)
  from ne obtain u where u: "u \<in> set users" by (cases users) auto
  then have u': "setUndefined Y (toSimpleObject u) \<in> set ?objs'" by simp
  have "\<not> isDuplicate ?objs' a b" if ab: "propIndex a < propIndex b" for a b
  proof -
    consider (other) "a \<noteq> Y" "b \<noteq> Y" | (left) "a = Y" | (right) "b = Y" "a \<noteq> CanvasId"
      | (ident) "b = Y" "a = CanvasId" by blast
    then show ?thesis
    proof cases
      case other
      then have "(a, b) \<noteq> (X, Y)" by simp
      with only ab have "\<not> isDuplicate ?objs a b" by blast
      with other isDuplicate_setUndefined_other [of a Y b ?objs] show ?thesis by blast
    next
      case left
      with ab have "b \<noteq> Y" by auto
      moreover from ab have "b \<noteq> CanvasId" by (cases b) simp_all
      ultimately have bn: "b \<noteq> CanvasId" "b \<noteq> Y" by simp_all
      from getProp_toSimpleObject [OF bn(1)] obtain s
        where "getProp (toSimpleObject u) b = JStr s" by blast
      with left bn(2) have "\<not> strictEq (getProp (setUndefined Y (toSimpleObject u)) a)
          (getProp (setUndefined Y (toSimpleObject u)) b)"
        by (simp add: getProp_setUndefined)
      with u' show ?thesis by (rule isDuplicate_witness)
    next
      case right
      with ab have an: "a \<noteq> Y" by auto
      from getProp_toSimpleObject [OF right(2)] obtain s
        where "getProp (toSimpleObject u) a = JStr s" by blast
      with right an have "\<not> strictEq (getProp (setUndefined Y (toSimpleObject u)) a)
          (getProp (setUndefined Y (toSimpleObject u)) b)"
        by (simp add: getProp_setUndefined)
      with u' show ?thesis by (rule isDuplicate_witness)
    next
      case ident
      with ab have an: "a \<noteq> Y" by auto
      from someId obtain v where v: "v \<in> set users" "user_id v \<noteq> JUndefined" by blast
      then have v': "setUndefined Y (toSimpleObject v) \<in> set ?objs'" by simp
      from ident an have "getProp (setUndefined Y (toSimpleObject v)) a = user_id v"
        by (cases Y) (simp_all add: toSimpleObject_def)
      moreover from ident have "getProp (setUndefined Y (toSimpleObject v)) b = JUndefined"
        by (simp only: getProp_setUndefined refl if_True)
      ultimately have "\<not> strictEq (getProp (setUndefined Y (toSimpleObject v)) a)
          (getProp (setUndefined Y (toSimpleObject v)) b)"
        using v(2) by (simp add: strictEq_def)
      with v' show ?thesis by (rule isDuplicate_witness)
    qed
  qed
  then have "findFirstProp ?objs' props = None"
    using findFirstProp_props_None [of ?objs'] by blast
  then have second: "findSecondPropOfDuplicate ?objs' = None"
    by (simp add: findSecondPropOfDuplicate_def)
  have "removeDuplicateProps ?objs = Some ?objs'"
    using removeDuplicateProps_step [OF first] removeDuplicateProps_done [OF second]
    by (simp only:)
  then show ?thesis
    unfolding preProcessUsers_def by (simp add: comp_def)
qed

text \<open>
  What the pre-processing does when it returns. The pairs searched are the pairs of all
  six keys, \<open>canvasId\<close> among them, compared with \<open>===\<close>. When the roster is not empty,
  some user has an id, the values under \<open>X\<close> and under a later \<open>Y\<close> are equal for every
  user, and no other pair of keys is such a pair, the pre-processing returns, with \<open>Y\<close>
  set to \<open>undefined\<close> in every object and nothing else changed. An empty roster gives the
  empty list.
\<close>

lemma normalizer_removes_later_duplicate:
  "(users \<noteq> [] \<and> propIndex X < propIndex Y \<and> (\<exists>u\<in>set users. user_id u \<noteq> JUndefined)
    \<and> isDuplicate (map toSimpleObject users) X Y
    \<and> (\<forall>a b. propIndex a < propIndex b \<and> (a, b) \<noteq> (X, Y)
           \<longrightarrow> \<not> isDuplicate (map toSimpleObject users) a b)
    \<longrightarrow> preProcessUsers users = Some (map (\<lambda>u. setUndefined Y (toSimpleObject u)) users))
   \<and> preProcessUsers [] = Some []"
proof
  show "users \<noteq> [] \<and> propIndex X < propIndex Y \<and> (\<exists>u\<in>set users. user_id u \<noteq> JUndefined)
    \<and> isDuplicate (map toSimpleObject users) X Y
    \<and> (\<forall>a b. propIndex a < propIndex b \<and> (a, b) \<noteq> (X, Y)
           \<longrightarrow> \<not> isDuplicate (map toSimpleObject users) a b)
    \<longrightarrow> preProcessUsers users = Some (map (\<lambda>u. setUndefined Y (toSimpleObject u)) users)"
    using removes_the_one_duplicate [of users X Y] by blast
next
  have "findSecondPropOfDuplicate [] = None" by (simp add: findSecondPropOfDuplicate_def)
  then show "preProcessUsers [] = Some []"
    by (simp add: preProcessUsers_def removeDuplicateProps_done)
qed

lemma normalizer_removes_twin_login:
  "isDuplicate (map toSimpleObject [twin]) SisUserId LoginId
   \<and> preProcessUsers [twin] = Some [setUndefined LoginId (toSimpleObject twin)]"
proof -
  have h1: "\<exists>u\<in>set [twin]. user_id u \<noteq> JUndefined" by (simp add: twin_def)
  have h2: "isDuplicate (map toSimpleObject [twin]) SisUserId LoginId" by code_simp
  have h3: "\<forall>a b. propIndex a < propIndex b \<and> (a, b) \<noteq> (SisUserId, LoginId)
          \<longrightarrow> \<not> isDuplicate (map toSimpleObject [twin]) a b"
  proof (intro allI)
    fix a b
    have obj: "map toSimpleObject [twin] =
        [\<lparr> canvasId = JNum 8, fullName = JStr ''ed eck'', sortableName = JStr ''eck, ed'',
           sisUserId = JStr ''eeck'', loginId = JStr ''eeck'', email = JStr ''ed@x.org'' \<rparr>]"
      by code_simp
    show "propIndex a < propIndex b \<and> (a, b) \<noteq> (SisUserId, LoginId)
          \<longrightarrow> \<not> isDuplicate (map toSimpleObject [twin]) a b"
      unfolding obj by (cases a; cases b) (simp_all add: isDuplicate_def strictEq_def)
  qed
  from h1 h2 h3 normalizer_removes_later_duplicate [of "[twin]" SisUserId LoginId]
  show ?thesis by simp
qed

text \<open>
  The identifier is not left out of the search: a user whose id is the string "u1" and
  whose name is "U1" loses the name, the second prop of the pair (\<open>canvasId\<close>,
  \<open>fullName\<close>).
\<close>

lemma identifier_is_compared:
  "preProcessUsers [idIsName] = Some [setUndefined FullName (toSimpleObject idIsName)]"
proof -
  have "findSecondPropOfDuplicate (map toSimpleObject [idIsName]) = Some FullName"
    by code_simp
  moreover have
    "findSecondPropOfDuplicate (map (setUndefined FullName) (map toSimpleObject [idIsName])) = None"
    by code_simp
  ultimately show ?thesis
    unfolding preProcessUsers_def
    by (simp add: removeDuplicateProps_step removeDuplicateProps_done)
qed

text \<open>
  Three props that are, each for all objects at once, the empty string or \<open>undefined\<close>:
  two of the three are equal, setting a prop to \<open>undefined\<close> keeps them so, and the loop
  finds a pair in every turn.
\<close>

lemma removeDuplicateProps_three_blank:
  assumes ne: "objs \<noteq> []"
    and blank: "\<forall>p\<in>{SisUserId, LoginId, Email}.
        (\<forall>obj\<in>set objs. getProp obj p = JStr [])
        \<or> (\<forall>obj\<in>set objs. getProp obj p = JUndefined)"
  shows "removeDuplicateProps objs = None"
proof -
  define B where "B = (\<lambda>(x :: simpleObject list) p.
      (\<forall>obj\<in>set x. getProp obj p = JStr []) \<or> (\<forall>obj\<in>set x. getProp obj p = JUndefined))"
  define I where "I = (\<lambda>x. x \<noteq> [] \<and> B x SisUserId \<and> B x LoginId \<and> B x Email)"
  have dup: "isDuplicate x a b \<or> isDuplicate x a c \<or> isDuplicate x b c"
    if "B x a" "B x b" "B x c" for x a b c
    using that unfolding B_def isDuplicate_def list_all_iff
    by (elim disjE) (simp_all add: strictEq_def)
  have kept: "B (map (setUndefined q) x) p" if "B x p" for x p q
    using that by (auto simp add: B_def getProp_setUndefined)
  have found: "findSecondPropOfDuplicate x \<noteq> None" if "I x" for x
  proof -
    from that have "isDuplicate x SisUserId LoginId \<or> isDuplicate x SisUserId Email
        \<or> isDuplicate x LoginId Email"
      using dup [of x SisUserId LoginId Email] by (simp add: I_def)
    then have "\<exists>a b. propIndex a < propIndex b \<and> isDuplicate x a b"
      by (elim disjE) (rule exI [of _ SisUserId], rule exI [of _ LoginId], simp,
          rule exI [of _ SisUserId], rule exI [of _ Email], simp,
          rule exI [of _ LoginId], rule exI [of _ Email], simp)
    then have "findFirstProp x props \<noteq> None"
      using findFirstProp_props_None [of x] by blast
    with that show ?thesis by (simp add: findSecondPropOfDuplicate_def I_def)
  qed
  have "\<forall>x y. removeDuplicateProps x = Some y \<longrightarrow> \<not> I x"
  proof (rule removeDuplicateProps.fixp_induct)
    show "option.admissible (\<lambda>f. \<forall>x y. f x = Some y \<longrightarrow> \<not> I x)"
      by (rule option_admissible)
  next
    show "\<forall>x y. None = Some y \<longrightarrow> \<not> I x" by simp
  next
    fix f :: "simpleObject list \<Rightarrow> simpleObject list option"
    assume ih: "\<forall>x y. f x = Some y \<longrightarrow> \<not> I x"
    show "\<forall>x y. (case findSecondPropOfDuplicate x of None \<Rightarrow> Some x
                      | Some secondProp \<Rightarrow> f (map (setUndefined secondProp) x)) = Some y
                 \<longrightarrow> \<not> I x"
    proof (intro allI impI notI)
      fix x y
      assume r: "(case findSecondPropOfDuplicate x of None \<Rightarrow> Some x
                      | Some secondProp \<Rightarrow> f (map (setUndefined secondProp) x)) = Some y"
        and i: "I x"
      from found [OF i] obtain q where q: "findSecondPropOfDuplicate x = Some q" by blast
      with r have "f (map (setUndefined q) x) = Some y" by simp
      with ih have "\<not> I (map (setUndefined q) x)" by blast
      with i show False by (simp add: I_def kept)
    qed
  qed
  moreover from ne blank have "I objs" by (simp add: I_def B_def)
  ultimately show ?thesis by (cases "removeDuplicateProps objs") auto
qed

lemma lowerField_falsy: "\<not> truthy v \<Longrightarrow> lowerField v = JStr []"
  by (simp add: lowerField_def jsOr_def toLowerCase_def)

lemma preProcessUsers_three_blank:
  assumes "users \<noteq> []"
    and "\<forall>u\<in>set users. \<not> truthy (sis_user_id u) \<and> \<not> truthy (login_id u)
                         \<and> \<not> truthy (user_email u)"
  shows "preProcessUsers users = None"
  unfolding preProcessUsers_def
  using assms
  by (intro removeDuplicateProps_three_blank)
    (simp_all add: toSimpleObject_def lowerField_falsy)

text \<open>
  C8. The claim has the loop end on every roster, and the source has the same in its
  comments ("Keep iterating until no duplicates exist", "Remove the duplicate (remove the
  second prop)"). It does not end on every roster: the loop sets the second prop of a
  pair to \<open>undefined\<close> and keeps its key, and two props set to \<open>undefined\<close> are equal to
  each other ever after, so the search finds a pair in every turn. A user with a numeric
  id and a name, without university id, login id and email, has the last three equal;
  the login id is removed, then the email, and from then on the email again and again:
  the pre-processing of a roster of this one user does not return. Neither does that of
  a roster of two such users.
\<close>

theorem preProcessUsers_does_not_return:
  "preProcessUsers [ann] = None \<and> preProcessUsers [ann, bea] = None"
proof -
  have s1: "findSecondPropOfDuplicate (map toSimpleObject [ann]) = Some LoginId"
    by code_simp
  have s2: "findSecondPropOfDuplicate (map (setUndefined LoginId) (map toSimpleObject [ann]))
      = Some Email"
    by code_simp
  have s3: "findSecondPropOfDuplicate
      (map (setUndefined Email) (map (setUndefined LoginId) (map toSimpleObject [ann])))
      = Some Email"
    by code_simp
  have s4: "map (setUndefined Email)
      (map (setUndefined Email) (map (setUndefined LoginId) (map toSimpleObject [ann])))
      = map (setUndefined Email) (map (setUndefined LoginId) (map toSimpleObject [ann]))"
    by code_simp
  have "removeDuplicateProps (map toSimpleObject [ann]) = None"
    using removeDuplicateProps_step [OF s1] removeDuplicateProps_step [OF s2]
      removeDuplicateProps_diverges [OF s3 s4]
    by (simp only:)
  then have a: "preProcessUsers [ann] = None" by (simp add: preProcessUsers_def)
  have "\<forall>u\<in>set [ann, bea]. \<not> truthy (sis_user_id u) \<and> \<not> truthy (login_id u)
                         \<and> \<not> truthy (user_email u)"
    by code_simp
  then have b: "preProcessUsers [ann, bea] = None"
    by (intro preProcessUsers_three_blank) simp_all
  from a b show ?thesis by simp
qed

section \<open>Configuration errors\<close>

lemma processTable_Inr_form:
  assumes "\<not> (studs = [] \<and> ttms = [])"
  shows "\<exists>cls. colIndexToTypeAndPropOf studs ttms table = Inr cls
           \<and> processTable os table studs ttms
             = Inr (afterColumnTypes os table (genSearchFunctions studs) (genSearchFunctions ttms) cls)"
  using classifyColumns_Inr [OF assms, of "rows table" "[0..<length (headers table)]"] assms
  by (auto simp add: processTable_def colIndexToTypeAndPropOf_def)

lemma matchedRows_run:
  "matchedRows (afterColumnTypes os table sfS sfT cls)
     = map (fullMatchedRow (idToFullUser (students os) (teachingTeamMembers os)))
         (matchedRowsOf (resolvedRowsOf os table cls (rowMatchesOf sfS sfT cls (rows table))))"
  by (simp add: afterColumnTypes_def afterMatching_def afterSeparation_def wrapUp_def)

lemma unmatchedRows_run:
  "unmatchedRows (afterColumnTypes os table sfS sfT cls)
     = map (\<lambda>unmatchedRow. fullUnmatchedRow (idToFullUser (students os) (teachingTeamMembers os))
              (addPotentialUsers sfS sfT
                 (usersToExcludeOf (studentOnlyOnce os) (teachingTeamMemberOnlyOnce os)
                    (matchedRowsOf (resolvedRowsOf os table cls
                       (rowMatchesOf sfS sfT cls (rows table)))))
                 unmatchedRow))
         (unmatchedRowsOf (resolvedRowsOf os table cls (rowMatchesOf sfS sfT cls (rows table))))"
  by (simp add: afterColumnTypes_def afterMatching_def afterSeparation_def wrapUp_def)

lemma usedNumStudentsPerRow_run:
  "usedNumStudentsPerRow (afterColumnTypes os table sfS sfT cls)
     = numStudentsPerRowOf os (rowMatchesOf sfS sfT cls (rows table))"
  by (simp add: afterColumnTypes_def afterMatching_def afterSeparation_def wrapUp_def)

lemma usedNumTeachingTeamMembersPerRow_run:
  "usedNumTeachingTeamMembersPerRow (afterColumnTypes os table sfS sfT cls)
     = numTeachingTeamMembersPerRowOf os (rowMatchesOf sfS sfT cls (rows table))"
  by (simp add: afterColumnTypes_def afterMatching_def afterSeparation_def wrapUp_def)

lemma processedCsv_run: "processedCsv (afterColumnTypes os table sfS sfT cls) = table"
  by (simp add: afterColumnTypes_def afterMatching_def afterSeparation_def wrapUp_def)

lemma length_matched_unmatched:
  "length (matchedRowsOf rs) + length (unmatchedRowsOf rs) = length rs"
  by (induction rs) (auto simp add: matchedRowsOf_def unmatchedRowsOf_def split: sum.splits)

lemma length_resolvedRowsOf:
  "length (resolvedRowsOf os table cls rowMatches) = length rowMatches"
  by (simp add: resolvedRowsOf_def resolveRows_def)

lemma length_rowMatchesOf: "length (rowMatchesOf sfS sfT cls rws) = length rws"
  by (simp add: rowMatchesOf_def)

lemma resolveRows_nth:
  "k < length rowMatches
   \<Longrightarrow> resolveRows d nS nT cls rws rowMatches ! k = resolveRow d nS nT cls rws (k, rowMatches ! k)"
  by (simp add: resolveRows_def)

lemma length_resolveRows: "length (resolveRows d nS nT cls rws rowMatches) = length rowMatches"
  by (simp add: resolveRows_def)

lemma rowIndex_resolveRow:
  "resolveRow d nS nT cls rws (k, r) = Inl mr \<Longrightarrow> rowIndex mr = k"
  "resolveRow d nS nT cls rws (k, r) = Inr ur \<Longrightarrow> rowIndex ur = k"
  by (auto simp add: resolveRow_def Let_def split: if_splits)

lemma rawRow_resolveRow:
  "resolveRow d nS nT cls rws (k, r) = Inl mr \<Longrightarrow> rawRow mr = rws ! k"
  "resolveRow d nS nT cls rws (k, r) = Inr ur \<Longrightarrow> rawRow ur = rws ! k"
  by (auto simp add: resolveRow_def Let_def split: if_splits)

lemma set_matchedRowsOf: "set (matchedRowsOf rs) = {m. Inl m \<in> set rs}"
  by (induction rs) (auto simp add: matchedRowsOf_def split: sum.splits)

lemma set_unmatchedRowsOf: "set (unmatchedRowsOf rs) = {u. Inr u \<in> set rs}"
  by (induction rs) (auto simp add: unmatchedRowsOf_def split: sum.splits)

lemma rowIndex_full [simp]:
  "rowIndex (fullUnmatchedRow full (addPotentialUsers sfS sfT ex ur)) = rowIndex ur"
  "errors (fullUnmatchedRow full (addPotentialUsers sfS sfT ex ur)) = errors ur"
  "rawRow (fullUnmatchedRow full (addPotentialUsers sfS sfT ex ur)) = rawRow ur"
  "rowIndex (fullMatchedRow full mr) = rowIndex mr"
  "rawRow (fullMatchedRow full mr) = rawRow mr"
  by (simp_all add: fullUnmatchedRow_def addPotentialUsers_def fullMatchedRow_def)

text \<open>
  Where a row of the table goes: the row of index \<open>k\<close> is in one of the two lists of the
  result, under its index and with its cells, and no row of the other list has its index.
\<close>

lemma accepted_row:
  assumes k: "k < length rowMatches"
    and r: "resolveRow d nS nT cls rws (k, rowMatches ! k) = Inl mr"
  shows "mr \<in> set (matchedRowsOf (resolveRows d nS nT cls rws rowMatches))"
    and "\<forall>ur\<in>set (unmatchedRowsOf (resolveRows d nS nT cls rws rowMatches)). rowIndex ur \<noteq> k"
proof -
  let ?rs = "resolveRows d nS nT cls rws rowMatches"
  from k r have n: "?rs ! k = Inl mr" by (simp add: resolveRows_nth)
  with k have "Inl mr \<in> set ?rs" by (metis length_resolveRows nth_mem)
  then show "mr \<in> set (matchedRowsOf ?rs)" by (simp add: set_matchedRowsOf)
  show "\<forall>ur\<in>set (unmatchedRowsOf ?rs). rowIndex ur \<noteq> k"
  proof
    fix ur assume "ur \<in> set (unmatchedRowsOf ?rs)"
    then have "Inr ur \<in> set ?rs" by (simp add: set_unmatchedRowsOf)
    then obtain i where i: "i < length rowMatches" "?rs ! i = Inr ur"
      by (auto simp add: in_set_conv_nth length_resolveRows)
    then have "rowIndex ur = i" by (simp add: resolveRows_nth rowIndex_resolveRow)
    with i n show "rowIndex ur \<noteq> k" by auto
  qed
qed

lemma rejected_row:
  assumes k: "k < length rowMatches"
    and r: "resolveRow d nS nT cls rws (k, rowMatches ! k) = Inr ur"
  shows "ur \<in> set (unmatchedRowsOf (resolveRows d nS nT cls rws rowMatches))"
    and "\<forall>mr\<in>set (matchedRowsOf (resolveRows d nS nT cls rws rowMatches)). rowIndex mr \<noteq> k"
proof -
  let ?rs = "resolveRows d nS nT cls rws rowMatches"
  from k r have n: "?rs ! k = Inr ur" by (simp add: resolveRows_nth)
  with k have "Inr ur \<in> set ?rs" by (metis length_resolveRows nth_mem)
  then show "ur \<in> set (unmatchedRowsOf ?rs)" by (simp add: set_unmatchedRowsOf)
  show "\<forall>mr\<in>set (matchedRowsOf ?rs). rowIndex mr \<noteq> k"
  proof
    fix mr assume "mr \<in> set (matchedRowsOf ?rs)"
    then have "Inl mr \<in> set ?rs" by (simp add: set_matchedRowsOf)
    then obtain i where i: "i < length rowMatches" "?rs ! i = Inl mr"
      by (auto simp add: in_set_conv_nth length_resolveRows)
    then have "rowIndex mr = i" by (simp add: resolveRows_nth rowIndex_resolveRow)
    with i n show "rowIndex mr \<noteq> k" by auto
  qed
qed

lemma row_in_one_list:
  assumes k: "k < length (rows table)"
  shows "(\<exists>mr. mr \<in> set (matchedRows (afterColumnTypes os table sfS sfT cls))
             \<and> rowIndex mr = k \<and> rawRow mr = rows table ! k)
           \<and> k \<notin> rowIndex ` set (unmatchedRows (afterColumnTypes os table sfS sfT cls))
         \<or> (\<exists>ur. ur \<in> set (unmatchedRows (afterColumnTypes os table sfS sfT cls))
             \<and> rowIndex ur = k \<and> rawRow ur = rows table ! k)
           \<and> k \<notin> rowIndex ` set (matchedRows (afterColumnTypes os table sfS sfT cls))"
proof -
  let ?rm = "rowMatchesOf sfS sfT cls (rows table)"
  let ?d = "isDisqualifiedOf (studentOnlyOnce os) (teachingTeamMemberOnlyOnce os) ?rm"
  let ?nS = "numStudentsPerRowOf os ?rm"
  let ?nT = "numTeachingTeamMembersPerRowOf os ?rm"
  let ?rs = "resolveRows ?d ?nS ?nT cls (rows table) ?rm"
  have rs: "resolvedRowsOf os table cls ?rm = ?rs" by (simp add: resolvedRowsOf_def)
  from k have k': "k < length ?rm" by (simp add: length_rowMatchesOf)
  show ?thesis
  proof (cases "resolveRow ?d ?nS ?nT cls (rows table) (k, ?rm ! k)")
    case (Inl mr)
    from accepted_row [OF k' Inl]
    have a: "mr \<in> set (matchedRowsOf ?rs)"
      and b: "\<forall>ur\<in>set (unmatchedRowsOf ?rs). rowIndex ur \<noteq> k" by simp_all
    let ?full = "fullMatchedRow (idToFullUser (students os) (teachingTeamMembers os))"
    from a have "?full mr \<in> set (matchedRows (afterColumnTypes os table sfS sfT cls))"
      by (simp add: matchedRows_run rs)
    moreover have "rowIndex (?full mr) = k \<and> rawRow (?full mr) = rows table ! k"
      using Inl by (simp add: rowIndex_resolveRow rawRow_resolveRow)
    moreover from b
    have "k \<notin> rowIndex ` set (unmatchedRows (afterColumnTypes os table sfS sfT cls))"
      by (auto simp add: unmatchedRows_run rs)
    ultimately show ?thesis by blast
  next
    case (Inr ur)
    from rejected_row [OF k' Inr]
    have a: "ur \<in> set (unmatchedRowsOf ?rs)"
      and b: "\<forall>mr\<in>set (matchedRowsOf ?rs). rowIndex mr \<noteq> k" by simp_all
    let ?full = "\<lambda>unmatchedRow.
      fullUnmatchedRow (idToFullUser (students os) (teachingTeamMembers os))
        (addPotentialUsers sfS sfT
           (usersToExcludeOf (studentOnlyOnce os) (teachingTeamMemberOnlyOnce os)
              (matchedRowsOf ?rs)) unmatchedRow)"
    from a have "?full ur \<in> set (unmatchedRows (afterColumnTypes os table sfS sfT cls))"
      by (simp add: unmatchedRows_run rs)
    moreover have "rowIndex (?full ur) = k \<and> rawRow (?full ur) = rows table ! k"
      using Inr by (simp add: rowIndex_resolveRow rawRow_resolveRow)
    moreover from b
    have "k \<notin> rowIndex ` set (matchedRows (afterColumnTypes os table sfS sfT cls))"
      by (auto simp add: matchedRows_run rs)
    ultimately show ?thesis by blast
  qed
qed

lemma malformed_count_message:
  assumes "s \<notin> {''any'', ''at-least-one''}"
  shows "pushIfTruthy (genNumPerRowErrorMessage t (JStr s) actual) \<noteq> []"
  using assms
  by (simp add: genNumPerRowErrorMessage_def pushIfTruthy_def strictEq_def ANY_NUMBER_def
      AT_LEAST_ONE_def)

lemma all_rejected:
  assumes "\<And>ir. \<exists>u. f ir = Inr u"
  shows "matchedRowsOf (map f xs) = []"
  using assms by (simp add: matchedRowsOf_def) (metis (no_types, lifting) sum.simps(6))

lemma malformed_count_rejects:
  assumes "s \<notin> {''any'', ''at-least-one''}"
  shows "matchedRowsOf (resolveRows d (JStr s) nT cls rws rowMatches) = []"
    and "matchedRowsOf (resolveRows d nS (JStr s) cls rws rowMatches) = []"
proof -
  have "\<And>ir. \<exists>u. resolveRow d (JStr s) nT cls rws ir = Inr u"
    using malformed_count_message [OF assms]
    by (simp add: resolveRow_def unmatchedErrorsOf_def Let_def)
  then show "matchedRowsOf (resolveRows d (JStr s) nT cls rws rowMatches) = []"
    unfolding resolveRows_def by (rule all_rejected)
  have "\<And>ir. \<exists>u. resolveRow d nS (JStr s) cls rws ir = Inr u"
    using malformed_count_message [OF assms]
    by (simp add: resolveRow_def unmatchedErrorsOf_def Let_def)
  then show "matchedRowsOf (resolveRows d nS (JStr s) cls rws rowMatches) = []"
    unfolding resolveRows_def by (rule all_rejected)
qed

lemma numStudentsPerRowOf_given:
  "numStudentsPerRow os = JStr s \<Longrightarrow> s \<noteq> ''auto-detect''
   \<Longrightarrow> numStudentsPerRowOf os rowMatches = JStr s"
  by (simp add: numStudentsPerRowOf_def autoDetect_def defaultNumPerRow_def strictEq_def
      AUTO_DETECT_def)

lemma numTeachingTeamMembersPerRowOf_given:
  "numTeachingTeamMembersPerRow os = JStr s \<Longrightarrow> s \<noteq> ''auto-detect''
   \<Longrightarrow> numTeachingTeamMembersPerRowOf os rowMatches = JStr s"
  by (simp add: numTeachingTeamMembersPerRowOf_def autoDetect_def defaultNumPerRow_def
      strictEq_def AUTO_DETECT_def)

lemma malformed_count_kept:
  fixes os table sfS sfT cls
  defines "res \<equiv> afterColumnTypes os table sfS sfT cls"
  assumes "s \<notin> {''any'', ''at-least-one'', ''auto-detect''}"
  shows "numStudentsPerRow os = JStr s
           \<Longrightarrow> usedNumStudentsPerRow res = JStr s \<and> matchedRows res = []"
    and "numTeachingTeamMembersPerRow os = JStr s
           \<Longrightarrow> usedNumTeachingTeamMembersPerRow res = JStr s \<and> matchedRows res = []"
proof -
  let ?rm = "rowMatchesOf sfS sfT cls (rows table)"
  from assms(2) have s: "s \<notin> {''any'', ''at-least-one''}" "s \<noteq> ''auto-detect''" by simp_all
  show "usedNumStudentsPerRow res = JStr s \<and> matchedRows res = []"
    if "numStudentsPerRow os = JStr s"
  proof -
    from that s(2) have n: "numStudentsPerRowOf os ?rm = JStr s"
      by (simp add: numStudentsPerRowOf_given)
    from malformed_count_rejects(1) [OF s(1)] n have "matchedRows res = []"
      by (simp add: res_def matchedRows_run resolvedRowsOf_def)
    with n show ?thesis by (simp add: res_def usedNumStudentsPerRow_run)
  qed
  show "usedNumTeachingTeamMembersPerRow res = JStr s \<and> matchedRows res = []"
    if "numTeachingTeamMembersPerRow os = JStr s"
  proof -
    from that s(2) have n: "numTeachingTeamMembersPerRowOf os ?rm = JStr s"
      by (simp add: numTeachingTeamMembersPerRowOf_given)
    from malformed_count_rejects(2) [OF s(1)] n have "matchedRows res = []"
      by (simp add: res_def matchedRows_run resolvedRowsOf_def)
    with n show ?thesis by (simp add: res_def usedNumTeachingTeamMembersPerRow_run)
  qed
qed

lemma preProcessUsers_noMail: "preProcessUsers [noMail] = Some [toSimpleObject noMail]"
  unfolding preProcessUsers_def by (simp, rule removeDuplicateProps_done) code_simp

lemma preProcessUsers_Nil: "preProcessUsers [] = Some []"
  by (simp add: preProcessUsers_def removeDuplicateProps_done findSecondPropOfDuplicate_def)

lemma preProcessCSV_object [simp]:
  "preProcessCSV (CsvObject (Some hds) (Some rws)) = Inr (filterRows \<lparr> headers = hds, rows = rws \<rparr>)"
  by (simp add: preProcessCSV_def)

lemma preProcessCSV_Inl_iff:
  "(\<exists>e. preProcessCSV c = Inl e)
     = (c = CsvMissing \<or> c = CsvUnreadableFile
        \<or> (\<exists>d errs. c = CsvText d errs \<and> (errs \<noteq> [] \<or> d = [] \<or> hd d = []))
        \<or> (\<exists>hs rs. c = CsvObject hs rs \<and> (hs = None \<or> rs = None)))"
  by (cases c) (auto simp add: preProcessCSV_def split: option.splits)

lemma run_result:
  assumes "preProcessCSV (csv os) = Inr table"
    and "preProcessUsers (students os) = Some studs"
    and "preProcessUsers (teachingTeamMembers os) = Some ttms"
    and "\<not> (studs = [] \<and> ttms = [])"
  shows "\<exists>cls. colIndexToTypeAndPropOf studs ttms table = Inr cls
           \<and> matchCSV os = Some (Inr (afterColumnTypes os table (genSearchFunctions studs)
                                        (genSearchFunctions ttms) cls))"
  using matchCSV_cases [OF assms(1,2,3)] processTable_Inr_form [OF assms(4), of table os]
  by auto

lemma run_returns:
  assumes "preProcessCSV (csv os) = Inr table"
    and "preProcessUsers (students os) = Some studs"
    and "preProcessUsers (teachingTeamMembers os) = Some ttms"
    and "\<not> (studs = [] \<and> ttms = [])"
  shows "\<exists>res. matchCSV os = Some (Inr res)"
  using run_result [OF assms] by blast

text \<open>
  C5, as the code has it. The run throws before any row is looked at in two cases only.
  The first is a table that the pre-processing refuses: no table, a file that cannot be
  read, a text with parse errors, a text without a line or with an empty first line, an
  object without rows or without headers; the error is thrown before the rosters are
  looked at. The second, for a table that is accepted and rosters whose pre-processing
  returns, is that both rosters are empty. In every other case the run returns a result
  with the processed table, in which every row of that table is in exactly one of the
  two lists, matched or unmatched, under its index and with its cells. The expected
  numbers per row are never checked: for either roster, a string that is none of "any",
  "at-least-one" and "auto-detect" is kept as the number used, and every row is then
  unmatched.
\<close>

theorem matchCSV_aborts_iff_no_table_or_no_users:
  "(preProcessCSV (csv os) = Inl e \<longrightarrow> matchCSV os = Some (Inl e))
   \<and> ((\<exists>e. preProcessCSV (csv os) = Inl e)
        = (csv os = CsvMissing \<or> csv os = CsvUnreadableFile
           \<or> (\<exists>d errs. csv os = CsvText d errs \<and> (errs \<noteq> [] \<or> d = [] \<or> hd d = []))
           \<or> (\<exists>hs rs. csv os = CsvObject hs rs \<and> (hs = None \<or> rs = None))))
   \<and> (preProcessCSV (csv os) = Inr table
        \<and> preProcessUsers (students os) = Some studs
        \<and> preProcessUsers (teachingTeamMembers os) = Some ttms \<longrightarrow>
        (students os = [] \<and> teachingTeamMembers os = []
           \<longrightarrow> matchCSV os = Some (Inl NoUsersToMatchWith))
        \<and> (\<not> (students os = [] \<and> teachingTeamMembers os = []) \<longrightarrow>
             (\<exists>res. matchCSV os = Some (Inr res)
                \<and> processedCsv res = table
                \<and> length (matchedRows res) + length (unmatchedRows res) = length (rows table)
                \<and> (\<forall>k<length (rows table).
                      (\<exists>mr. mr \<in> set (matchedRows res)
                          \<and> rowIndex mr = k \<and> rawRow mr = rows table ! k)
                        \<and> k \<notin> rowIndex ` set (unmatchedRows res)
                      \<or> (\<exists>ur. ur \<in> set (unmatchedRows res)
                          \<and> rowIndex ur = k \<and> rawRow ur = rows table ! k)
                        \<and> k \<notin> rowIndex ` set (matchedRows res))
                \<and> (\<forall>s. s \<notin> {''any'', ''at-least-one'', ''auto-detect''} \<longrightarrow>
                      (numStudentsPerRow os = JStr s
                         \<longrightarrow> usedNumStudentsPerRow res = JStr s \<and> matchedRows res = [])
                      \<and> (numTeachingTeamMembersPerRow os = JStr s
                         \<longrightarrow> usedNumTeachingTeamMembersPerRow res = JStr s
                             \<and> matchedRows res = [])))))"
proof -
  have one: "preProcessCSV (csv os) = Inl e \<longrightarrow> matchCSV os = Some (Inl e)"
    by (simp add: matchCSV_def)
  note two = preProcessCSV_Inl_iff [of "csv os"]
  have three: "(students os = [] \<and> teachingTeamMembers os = []
           \<longrightarrow> matchCSV os = Some (Inl NoUsersToMatchWith))
        \<and> (\<not> (students os = [] \<and> teachingTeamMembers os = []) \<longrightarrow>
             (\<exists>res. matchCSV os = Some (Inr res)
                \<and> processedCsv res = table
                \<and> length (matchedRows res) + length (unmatchedRows res) = length (rows table)
                \<and> (\<forall>k<length (rows table).
                      (\<exists>mr. mr \<in> set (matchedRows res)
                          \<and> rowIndex mr = k \<and> rawRow mr = rows table ! k)
                        \<and> k \<notin> rowIndex ` set (unmatchedRows res)
                      \<or> (\<exists>ur. ur \<in> set (unmatchedRows res)
                          \<and> rowIndex ur = k \<and> rawRow ur = rows table ! k)
                        \<and> k \<notin> rowIndex ` set (matchedRows res))
                \<and> (\<forall>s. s \<notin> {''any'', ''at-least-one'', ''auto-detect''} \<longrightarrow>
                      (numStudentsPerRow os = JStr s
                         \<longrightarrow> usedNumStudentsPerRow res = JStr s \<and> matchedRows res = [])
                      \<and> (numTeachingTeamMembersPerRow os = JStr s
                         \<longrightarrow> usedNumTeachingTeamMembersPerRow res = JStr s
                             \<and> matchedRows res = []))))"
    if t: "preProcessCSV (csv os) = Inr table"
      and s: "preProcessUsers (students os) = Some studs"
      and m: "preProcessUsers (teachingTeamMembers os) = Some ttms"
  proof (intro conjI impI)
    have e: "(studs = [] \<and> ttms = []) = (students os = [] \<and> teachingTeamMembers os = [])"
      using preProcessUsers_empty_iff [OF s] preProcessUsers_empty_iff [OF m] by simp
    show "matchCSV os = Some (Inl NoUsersToMatchWith)"
      if "students os = [] \<and> teachingTeamMembers os = []"
      using that e matchCSV_cases [OF t s m] by (simp add: processTable_throws)
    assume "\<not> (students os = [] \<and> teachingTeamMembers os = [])"
    with e have "\<not> (studs = [] \<and> ttms = [])" by simp
    from run_result [OF t s m this] obtain cls
      where r: "matchCSV os = Some (Inr (afterColumnTypes os table (genSearchFunctions studs)
                                           (genSearchFunctions ttms) cls))"
      by blast
    let ?res = "afterColumnTypes os table (genSearchFunctions studs) (genSearchFunctions ttms) cls"
    show "\<exists>res. matchCSV os = Some (Inr res)
                \<and> processedCsv res = table
                \<and> length (matchedRows res) + length (unmatchedRows res) = length (rows table)
                \<and> (\<forall>k<length (rows table).
                      (\<exists>mr. mr \<in> set (matchedRows res)
                          \<and> rowIndex mr = k \<and> rawRow mr = rows table ! k)
                        \<and> k \<notin> rowIndex ` set (unmatchedRows res)
                      \<or> (\<exists>ur. ur \<in> set (unmatchedRows res)
                          \<and> rowIndex ur = k \<and> rawRow ur = rows table ! k)
                        \<and> k \<notin> rowIndex ` set (matchedRows res))
                \<and> (\<forall>s. s \<notin> {''any'', ''at-least-one'', ''auto-detect''} \<longrightarrow>
                      (numStudentsPerRow os = JStr s
                         \<longrightarrow> usedNumStudentsPerRow res = JStr s \<and> matchedRows res = [])
                      \<and> (numTeachingTeamMembersPerRow os = JStr s
                         \<longrightarrow> usedNumTeachingTeamMembersPerRow res = JStr s
                             \<and> matchedRows res = []))"
    proof (intro exI [of _ ?res] conjI allI impI)
      show "matchCSV os = Some (Inr ?res)" by (rule r)
      show "processedCsv ?res = table" by (rule processedCsv_run)
      show "length (matchedRows ?res) + length (unmatchedRows ?res) = length (rows table)"
        by (simp add: matchedRows_run unmatchedRows_run length_matched_unmatched
            length_resolvedRowsOf length_rowMatchesOf)
      show "(\<exists>mr. mr \<in> set (matchedRows ?res)
                          \<and> rowIndex mr = k \<and> rawRow mr = rows table ! k)
                        \<and> k \<notin> rowIndex ` set (unmatchedRows ?res)
                      \<or> (\<exists>ur. ur \<in> set (unmatchedRows ?res)
                          \<and> rowIndex ur = k \<and> rawRow ur = rows table ! k)
                        \<and> k \<notin> rowIndex ` set (matchedRows ?res)"
        if "k < length (rows table)" for k
        using that by (rule row_in_one_list)
    next
      fix s :: string
      assume "s \<notin> {''any'', ''at-least-one'', ''auto-detect''}"
      note k = malformed_count_kept [OF this]
      { assume "numStudentsPerRow os = JStr s"
        from k(1) [OF this] show "usedNumStudentsPerRow ?res = JStr s" by simp
        from k(1) [OF \<open>numStudentsPerRow os = JStr s\<close>] show "matchedRows ?res = []" by simp }
      { assume "numTeachingTeamMembersPerRow os = JStr s"
        from k(2) [OF this] show "usedNumTeachingTeamMembersPerRow ?res = JStr s" by simp
        from k(2) [OF \<open>numTeachingTeamMembersPerRow os = JStr s\<close>]
        show "matchedRows ?res = []" by simp }
    qed
  qed
  from one two three show ?thesis by (intro conjI impI) blast+
qed

theorem matchCSV_aborts_iff_no_table_or_no_users_witness:
  "matchCSV (badOpts\<lparr>csv := CsvText [] []\<rparr>) = Some (Inl EmptyCSV)
   \<and> (\<exists>res. matchCSV badOpts = Some (Inr res)
         \<and> processedCsv res = \<lparr> headers = [''Login''], rows = [[''dido'']] \<rparr>
         \<and> usedNumStudentsPerRow res = JStr ''one'' \<and> matchedRows res = []
         \<and> (\<exists>ur. ur \<in> set (unmatchedRows res) \<and> rowIndex ur = 0 \<and> rawRow ur = [''dido'']))"
proof -
  let ?table = "\<lparr> headers = [''Login''], rows = [[''dido'']] \<rparr>"
  have "preProcessCSV (csv (badOpts\<lparr>csv := CsvText [] []\<rparr>)) = Inl EmptyCSV"
    by (simp add: preProcessCSV_def)
  with matchCSV_aborts_iff_no_table_or_no_users [of "badOpts\<lparr>csv := CsvText [] []\<rparr>" EmptyCSV]
  have one: "matchCSV (badOpts\<lparr>csv := CsvText [] []\<rparr>) = Some (Inl EmptyCSV)" by blast
  have t: "preProcessCSV (csv badOpts) = Inr ?table" by code_simp
  have a: "preProcessUsers (students badOpts) = Some [toSimpleObject noMail]"
    by (simp add: badOpts_def preProcessUsers_noMail)
  have b: "preProcessUsers (teachingTeamMembers badOpts) = Some []"
    by (simp add: badOpts_def preProcessUsers_Nil)
  have ne: "\<not> (students badOpts = [] \<and> teachingTeamMembers badOpts = [])"
    by (simp add: badOpts_def)
  have n: "numStudentsPerRow badOpts = JStr ''one''" by (simp add: badOpts_def)
  have s: "''one'' \<notin> {''any'', ''at-least-one'', ''auto-detect''}" by simp
  have p: "preProcessCSV (csv badOpts) = Inr ?table
        \<and> preProcessUsers (students badOpts) = Some [toSimpleObject noMail]
        \<and> preProcessUsers (teachingTeamMembers badOpts) = Some []"
    using t a b by simp
  from matchCSV_aborts_iff_no_table_or_no_users
    [of badOpts _ ?table "[toSimpleObject noMail]" "[]",
      THEN conjunct2, THEN conjunct2, THEN mp, OF p, THEN conjunct2, THEN mp, OF ne]
  obtain res where r: "matchCSV badOpts = Some (Inr res)" "processedCsv res = ?table"
    and k: "\<forall>k<length (rows ?table).
              (\<exists>mr. mr \<in> set (matchedRows res)
                  \<and> rowIndex mr = k \<and> rawRow mr = rows ?table ! k)
                \<and> k \<notin> rowIndex ` set (unmatchedRows res)
              \<or> (\<exists>ur. ur \<in> set (unmatchedRows res)
                  \<and> rowIndex ur = k \<and> rawRow ur = rows ?table ! k)
                \<and> k \<notin> rowIndex ` set (matchedRows res)"
    and c: "\<forall>s. s \<notin> {''any'', ''at-least-one'', ''auto-detect''} \<longrightarrow>
              (numStudentsPerRow badOpts = JStr s
                 \<longrightarrow> usedNumStudentsPerRow res = JStr s \<and> matchedRows res = [])
              \<and> (numTeachingTeamMembersPerRow badOpts = JStr s
                 \<longrightarrow> usedNumTeachingTeamMembersPerRow res = JStr s \<and> matchedRows res = [])"
    by (elim exE conjE)
  from c [rule_format, OF s, THEN conjunct1, rule_format, OF n]
  have u: "usedNumStudentsPerRow res = JStr ''one''" "matchedRows res = []"
    by simp_all
  from k [rule_format, of 0] u(2)
  have "\<exists>ur. ur \<in> set (unmatchedRows res) \<and> rowIndex ur = 0 \<and> rawRow ur = [''dido'']"
    by simp
  with one r u show ?thesis by blast
qed

text \<open>
  C5, as the claim has it, fails: a malformed expected number is no error. With "one"
  as the number of students per row the run returns; the number used is the string
  "one", no row is matched and the one row of the table is unmatched.
\<close>

theorem malformed_count_does_not_abort:
  "map_option (map_sum id usedNumStudentsPerRow) (matchCSV badOpts) = Some (Inr (JStr ''one''))
   \<and> map_option (map_sum id matchedRows) (matchCSV badOpts) = Some (Inr [])
   \<and> map_option (map_sum id (length \<circ> unmatchedRows)) (matchCSV badOpts) = Some (Inr 1)"
proof -
  let ?table = "\<lparr> headers = [''Login''], rows = [[''dido'']] \<rparr>"
  have t: "preProcessCSV (csv badOpts) = Inr ?table" by code_simp
  have a: "preProcessUsers (students badOpts) = Some [toSimpleObject noMail]"
    by (simp add: badOpts_def preProcessUsers_noMail)
  have b: "preProcessUsers (teachingTeamMembers badOpts) = Some []"
    by (simp add: badOpts_def preProcessUsers_Nil)
  have n: "numStudentsPerRow badOpts = JStr ''one''" by (simp add: badOpts_def)
  have s: "''one'' \<notin> {''any'', ''at-least-one'', ''auto-detect''}" by simp
  from run_result [OF t a b] obtain cls
    where r: "matchCSV badOpts = Some (Inr (afterColumnTypes badOpts ?table
        (genSearchFunctions [toSimpleObject noMail]) (genSearchFunctions []) cls))"
    by auto
  let ?res = "afterColumnTypes badOpts ?table
        (genSearchFunctions [toSimpleObject noMail]) (genSearchFunctions []) cls"
  from malformed_count_kept(1) [OF s n]
  have u: "usedNumStudentsPerRow ?res = JStr ''one''" "matchedRows ?res = []" by simp_all
  have "length (matchedRows ?res) + length (unmatchedRows ?res) = length (rows ?table)"
    by (simp add: matchedRows_run unmatchedRows_run length_matched_unmatched
        length_resolvedRowsOf length_rowMatchesOf)
  with u have "length (unmatchedRows ?res) = 1" by simp
  with r u show ?thesis by simp
qed

section \<open>Column types: a blank column\<close>

lemma processTable_run:
  "\<not> (studs = [] \<and> ttms = []) \<Longrightarrow> colIndexToTypeAndPropOf studs ttms table = Inr cls
   \<Longrightarrow> processTable os table studs ttms
       = Inr (afterColumnTypes os table (genSearchFunctions studs) (genSearchFunctions ttms) cls)"
  by (simp add: processTable_def)

lemma colTypes_run: "colTypes (afterColumnTypes os table sfS sfT cls) = map colTypeOf cls"
  by (simp add: afterColumnTypes_def afterMatching_def afterSeparation_def wrapUp_def)

lemma classifyColumns_nth:
  "classifyColumns pods rws cols = Inr tps
   \<Longrightarrow> length tps = length cols
       \<and> (\<forall>i<length cols. classifyColumn pods (map (\<lambda>row. row ! (cols ! i)) rws) = Inr (tps ! i))"
proof (induction cols arbitrary: tps)
  case Nil
  then show ?case by simp
next
  case (Cons c cols)
  from Cons.prems obtain tp tps' where
    tp: "classifyColumn pods (map (\<lambda>row. row ! c) rws) = Inr tp"
    and rest: "classifyColumns pods rws cols = Inr tps'" and eq: "tps = tp # tps'"
    by (auto split: sum.splits)
  from Cons.IH [OF rest] have ih: "length tps' = length cols"
    "\<forall>i<length cols. classifyColumn pods (map (\<lambda>row. row ! (cols ! i)) rws) = Inr (tps' ! i)"
    by simp_all
  show ?case
  proof (intro conjI allI impI)
    show "length tps = length (c # cols)" using ih(1) eq by simp
  next
    fix i assume "i < length (c # cols)"
    then show "classifyColumn pods (map (\<lambda>row. row ! ((c # cols) ! i)) rws) = Inr (tps ! i)"
      using tp ih(2) eq by (cases i) simp_all
  qed
qed

lemma colIndexToTypeAndPropOf_nth:
  assumes "colIndexToTypeAndPropOf studs ttms table = Inr cls" and "c < length (headers table)"
  shows "classifyColumn (podsOf studs ttms) (map (\<lambda>row. row ! c) (rows table)) = Inr (cls ! c)"
    and "length cls = length (headers table)"
  using classifyColumns_nth [OF assms(1) [unfolded colIndexToTypeAndPropOf_def]] assms(2)
  by simp_all

lemma numNonemptyIn_blank: "\<forall>cell\<in>set cells. trim cell = [] \<Longrightarrow> numNonemptyIn cells = 0"
  by (simp add: numNonemptyIn_def)

lemma numMatchingIn_blank:
  "\<forall>cell\<in>set cells. trim cell = [] \<Longrightarrow> \<not> hasUser cellToUser []
   \<Longrightarrow> numMatchingIn cellToUser cells = 0"
  by (simp add: numMatchingIn_def toLowerCase_def)

lemma minToMatchOf_0: "minToMatchOf 0 = 0"
  by (simp add: minToMatchOf_code)

lemma typeDataOf_types:
  "d \<in> set (typeDataOf (podsOf studs ttms) cells) \<Longrightarrow> type' d \<noteq> DATA"
  by (auto simp add: typeDataOf_def podsOf_def)

lemma typeDataOf_minToMatch:
  "d \<in> set (typeDataOf pods cells) \<Longrightarrow> minToMatch d = minToMatchOf (numNonemptyIn cells)"
  by (auto simp add: typeDataOf_def)

lemma blank_column_not_data:
  assumes "\<forall>cell\<in>set cells. trim cell = []"
    and "classifyColumn (podsOf studs ttms) cells = Inr tp"
  shows "type' tp \<noteq> DATA"
proof -
  let ?sorted = "jsSort compareNumMatching (typeDataOf (podsOf studs ttms) cells)"
  from assms(2) obtain b bs where s: "?sorted = b # bs"
    by (cases ?sorted) (simp_all add: classifyColumn_def)
  then have "b \<in> set ?sorted" by simp
  then have b: "b \<in> set (typeDataOf (podsOf studs ttms) cells)" by (simp add: set_jsSort)
  then have "minToMatch b = 0"
    using typeDataOf_minToMatch [OF b] numNonemptyIn_blank [OF assms(1)] minToMatchOf_0 by simp
  with assms(2) s have "tp = \<lparr> type' = type' b, prop' = prop' b \<rparr>"
    by (simp add: classifyColumn_def)
  with typeDataOf_types [OF b] show ?thesis by simp
qed

lemma insertSorted_ties: "\<forall>y\<in>set ys. c x y = 0 \<Longrightarrow> insertSorted c x ys = x # ys"
  by (cases ys) simp_all

lemma jsSort_ties: "\<forall>x\<in>set xs. \<forall>y\<in>set xs. c x y = 0 \<Longrightarrow> jsSort c xs = xs"
proof (induction xs)
  case Nil
  then show ?case by (simp add: jsSort_def)
next
  case (Cons x xs)
  then have "jsSort c xs = xs" by simp
  moreover from Cons.prems have "\<forall>y\<in>set xs. c x y = 0" by simp
  ultimately show ?case using insertSorted_ties [of xs c x] by (simp add: jsSort_def)
qed

lemma cellsOf_pair:
  "distinct (objectKeys m) \<Longrightarrow> (p, cells) \<in> set m \<Longrightarrow> cellsOf m p = cells"
  by (simp add: cellsOf_def objectKeys_def)

lemma distinct_keys_genPropToCellToUser: "distinct (objectKeys (genPropToCellToUser users))"
  by (simp add: keys_genPropToCellToUser props_def)

lemma typeDataOf_blank_numMatching:
  assumes "\<forall>cell\<in>set cells. trim cell = []"
    and "\<forall>p. \<not> hasUser (cellsOf (genPropToCellToUser studs) p) []"
    and "\<forall>p. \<not> hasUser (cellsOf (genPropToCellToUser ttms) p) []"
    and "d \<in> set (typeDataOf (podsOf studs ttms) cells)"
  shows "numMatching d = 0"
proof -
  from assms(4) have "\<exists>p cellToUser.
      ((p, cellToUser) \<in> set (genPropToCellToUser studs)
        \<or> (p, cellToUser) \<in> set (genPropToCellToUser ttms))
      \<and> numMatching d = numMatchingIn cellToUser cells"
    by (fastforce simp add: typeDataOf_def podsOf_def)
  then obtain p cellToUser where
    "((p, cellToUser) \<in> set (genPropToCellToUser studs) \<or> (p, cellToUser) \<in> set (genPropToCellToUser ttms))"
    and n: "numMatching d = numMatchingIn cellToUser cells"
    by blast
  then have "cellToUser = cellsOf (genPropToCellToUser studs) p
      \<or> cellToUser = cellsOf (genPropToCellToUser ttms) p"
    using cellsOf_pair [OF distinct_keys_genPropToCellToUser] by blast
  with assms(2,3) have "\<not> hasUser cellToUser []" by auto
  with n numMatchingIn_blank [OF assms(1)] show ?thesis by simp
qed

lemma hd_genPropToCellToUser:
  "users \<noteq> [] \<Longrightarrow> \<exists>cells rest. genPropToCellToUser users = (CanvasId, cells) # rest"
proof -
  assume "users \<noteq> []"
  then have "objectKeys (genPropToCellToUser users) = props" by (simp add: keys_genPropToCellToUser)
  then show ?thesis
    by (cases "genPropToCellToUser users") (auto simp add: objectKeys_def props_def)
qed

lemma hd_typeDataOf:
  assumes "\<not> (studs = [] \<and> ttms = [])"
  shows "\<exists>d ds. typeDataOf (podsOf studs ttms) cells = d # ds
           \<and> type' d = (if studs \<noteq> [] then STUDENT else TEACHING_TEAM_MEMBER)
           \<and> prop' d = Some CanvasId"
proof (cases "studs = []")
  case True
  with assms have "ttms \<noteq> []" by simp
  from hd_genPropToCellToUser [OF this] obtain cs rest
    where "genPropToCellToUser ttms = (CanvasId, cs) # rest" by blast
  moreover from True have "genPropToCellToUser studs = []"
    by (simp add: genPropToCellToUser_empty_iff)
  ultimately show ?thesis using True by (simp add: typeDataOf_def podsOf_def)
next
  case False
  from hd_genPropToCellToUser [OF this] obtain cs rest
    where "genPropToCellToUser studs = (CanvasId, cs) # rest" by blast
  then show ?thesis using False by (simp add: typeDataOf_def podsOf_def)
qed

lemma blank_column_first_pair:
  assumes "\<forall>cell\<in>set cells. trim cell = []"
    and "\<forall>p. \<not> hasUser (cellsOf (genPropToCellToUser studs) p) []"
    and "\<forall>p. \<not> hasUser (cellsOf (genPropToCellToUser ttms) p) []"
    and "classifyColumn (podsOf studs ttms) cells = Inr tp"
  shows "tp = \<lparr> type' = (if studs \<noteq> [] then STUDENT else TEACHING_TEAM_MEMBER),
                prop' = Some CanvasId \<rparr>"
proof -
  let ?td = "typeDataOf (podsOf studs ttms) cells"
  have z: "\<forall>d\<in>set ?td. numMatching d = 0"
    using typeDataOf_blank_numMatching [OF assms(1,2,3)] by blast
  then have "\<forall>x\<in>set ?td. \<forall>y\<in>set ?td. compareNumMatching x y = 0"
    by (simp add: compareNumMatching_def)
  then have s: "jsSort compareNumMatching ?td = ?td" by (rule jsSort_ties)
  from assms(4) s have ne: "?td \<noteq> []" by (auto simp add: classifyColumn_def)
  then have "\<not> (studs = [] \<and> ttms = [])" by (simp add: typeDataOf_empty_iff)
  from hd_typeDataOf [OF this, of cells] obtain d ds where d: "?td = d # ds"
    "type' d = (if studs \<noteq> [] then STUDENT else TEACHING_TEAM_MEMBER)" "prop' d = Some CanvasId"
    by blast
  then have "d \<in> set ?td" by simp
  with z typeDataOf_minToMatch [of d "podsOf studs ttms" cells]
    numNonemptyIn_blank [OF assms(1)] minToMatchOf_0
  have "numMatching d = 0" "minToMatch d = 0" by simp_all
  with assms(4) s d show ?thesis by (simp add: classifyColumn_def)
qed


lemma object_as_map:
  "distinct (objectKeys m) \<Longrightarrow> m = map (\<lambda>k. (k, cellsOf m k)) (objectKeys m)"
proof (induction m)
  case Nil
  then show ?case by (simp add: objectKeys_def)
next
  case (Cons a m)
  obtain k v where a: "a = (k, v)" by (cases a)
  from Cons.prems a have d: "distinct (objectKeys m)" and k: "k \<notin> set (objectKeys m)"
    by (simp_all add: objectKeys_def)
  have "map (\<lambda>k'. (k', cellsOf (a # m) k')) (objectKeys m)
      = map (\<lambda>k'. (k', cellsOf m k')) (objectKeys m)"
    using k a by (auto simp add: cellsOf_def)
  with Cons.IH [OF d] a show ?case by (simp add: objectKeys_def cellsOf_def)
qed

lemma genPropToCellToUser_as_map:
  "genPropToCellToUser users
     = (if users = [] then []
        else map (\<lambda>p. (p, cellsOf (genPropToCellToUser users) p)) props)"
  using object_as_map [OF distinct_keys_genPropToCellToUser, of users]
  by (simp add: keys_genPropToCellToUser genPropToCellToUser_empty_iff split: if_splits)

lemma hd_insertSorted:
  "hd (insertSorted c x ys) = (if ys = [] \<or> c x (hd ys) \<le> 0 then x else hd ys)"
  by (cases ys) simp_all

lemma insertSorted_not_Nil [simp]: "insertSorted c x ys \<noteq> []"
  by (cases ys) simp_all

lemma jsSort_Nil_iff [simp]: "(jsSort c xs = []) = (xs = [])"
  by (cases xs) (simp_all add: jsSort_def)

lemma hd_jsSort_first_max:
  "xs \<noteq> [] \<Longrightarrow>
   \<exists>i<length xs. hd (jsSort compareNumMatching xs) = xs ! i
      \<and> (\<forall>j<length xs. numMatching (xs ! j) \<le> numMatching (xs ! i))
      \<and> (\<forall>j<i. numMatching (xs ! j) < numMatching (xs ! i))"
proof (induction xs)
  case Nil
  then show ?case by simp
next
  case (Cons x xs)
  have s: "jsSort compareNumMatching (x # xs) = insertSorted compareNumMatching x (jsSort compareNumMatching xs)"
    by (simp add: jsSort_def)
  show ?case
  proof (cases "xs = []")
    case True
    then show ?thesis by (simp add: jsSort_def)
  next
    case False
    from Cons.IH [OF False] obtain i where i: "i < length xs"
      "hd (jsSort compareNumMatching xs) = xs ! i"
      "\<forall>j<length xs. numMatching (xs ! j) \<le> numMatching (xs ! i)"
      "\<forall>j<i. numMatching (xs ! j) < numMatching (xs ! i)"
      by blast
    show ?thesis
    proof (cases "numMatching (xs ! i) \<le> numMatching x")
      case True
      then have "hd (jsSort compareNumMatching (x # xs)) = x"
        using i(2) by (simp add: s hd_insertSorted compareNumMatching_def)
      moreover have "\<forall>j<length (x # xs). numMatching ((x # xs) ! j) \<le> numMatching x"
      proof (intro allI impI)
        fix j assume "j < length (x # xs)"
        then show "numMatching ((x # xs) ! j) \<le> numMatching x"
          using True i(3) by (cases j) (auto intro: order_trans)
      qed
      ultimately show ?thesis by (intro exI [of _ 0]) simp
    next
      case F: False
      then have h: "hd (jsSort compareNumMatching (x # xs)) = xs ! i"
        using i(2) False by (simp add: s hd_insertSorted compareNumMatching_def)
      have a: "\<forall>j<length (x # xs). numMatching ((x # xs) ! j) \<le> numMatching (xs ! i)"
      proof (intro allI impI)
        fix j assume "j < length (x # xs)"
        then show "numMatching ((x # xs) ! j) \<le> numMatching (xs ! i)"
          using F i(3) by (cases j) auto
      qed
      have b: "\<forall>j<Suc i. numMatching ((x # xs) ! j) < numMatching (xs ! i)"
      proof (intro allI impI)
        fix j assume "j < Suc i"
        then show "numMatching ((x # xs) ! j) < numMatching (xs ! i)"
          using F i(4) by (cases j) auto
      qed
      from h a b i(1) show ?thesis by (intro exI [of _ "Suc i"]) simp
    qed
  qed
qed

lemma typeDataOf_pairs:
  "typeDataOf (podsOf studs ttms) cells
     = map (\<lambda>(t, p). \<lparr> type' = t, prop' = Some p,
                       minToMatch = minToMatchOf (numNonemptyIn cells),
                       numMatching = numMatchingIn
                         (cellsOf (genPropToCellToUser (if t = STUDENT then studs else ttms)) p)
                         cells \<rparr>)
         ((if studs = [] then [] else map (Pair STUDENT) props)
          @ (if ttms = [] then [] else map (Pair TEACHING_TEAM_MEMBER) props))"
proof -
  have "typeDataOf (podsOf studs ttms) cells
    = map (\<lambda>(p, cellToUser). \<lparr> type' = STUDENT, prop' = Some p,
               minToMatch = minToMatchOf (numNonemptyIn cells),
               numMatching = numMatchingIn cellToUser cells \<rparr>) (genPropToCellToUser studs)
      @ map (\<lambda>(p, cellToUser). \<lparr> type' = TEACHING_TEAM_MEMBER, prop' = Some p,
               minToMatch = minToMatchOf (numNonemptyIn cells),
               numMatching = numMatchingIn cellToUser cells \<rparr>) (genPropToCellToUser ttms)"
    by (simp add: typeDataOf_def podsOf_def)
  also have "map (\<lambda>(p, cellToUser). \<lparr> type' = STUDENT, prop' = Some p,
               minToMatch = minToMatchOf (numNonemptyIn cells),
               numMatching = numMatchingIn cellToUser cells \<rparr>) (genPropToCellToUser studs)
     = (if studs = [] then [] else map (\<lambda>p. \<lparr> type' = STUDENT, prop' = Some p,
               minToMatch = minToMatchOf (numNonemptyIn cells),
               numMatching = numMatchingIn (cellsOf (genPropToCellToUser studs) p) cells \<rparr>) props)"
    by (subst genPropToCellToUser_as_map) (simp add: comp_def)
  also have "map (\<lambda>(p, cellToUser). \<lparr> type' = TEACHING_TEAM_MEMBER, prop' = Some p,
               minToMatch = minToMatchOf (numNonemptyIn cells),
               numMatching = numMatchingIn cellToUser cells \<rparr>) (genPropToCellToUser ttms)
     = (if ttms = [] then [] else map (\<lambda>p. \<lparr> type' = TEACHING_TEAM_MEMBER, prop' = Some p,
               minToMatch = minToMatchOf (numNonemptyIn cells),
               numMatching = numMatchingIn (cellsOf (genPropToCellToUser ttms) p) cells \<rparr>) props)"
    by (subst genPropToCellToUser_as_map) (simp add: comp_def)
  finally show ?thesis by (simp add: comp_def)
qed


lemma classifyColumn_blank:
  assumes blank: "\<forall>cell\<in>set cells. trim cell = []"
    and k: "classifyColumn (podsOf studs ttms) cells = Inr tp"
    and pairs: "pairs = (if studs = [] then [] else map (Pair STUDENT) props)
                        @ (if ttms = [] then [] else map (Pair TEACHING_TEAM_MEMBER) props)"
    and score: "score = (\<lambda>(t, p). numMatchingIn
                   (cellsOf (genPropToCellToUser (if t = STUDENT then studs else ttms)) p) cells)"
  shows "\<exists>i<length pairs. tp = \<lparr> type' = fst (pairs ! i), prop' = Some (snd (pairs ! i)) \<rparr>
           \<and> (\<forall>j<length pairs. score (pairs ! j) \<le> score (pairs ! i))
           \<and> (\<forall>j<i. score (pairs ! j) < score (pairs ! i))"
proof -
  let ?mk = "\<lambda>(t, p). \<lparr> type' = t, prop' = Some p,
                       minToMatch = minToMatchOf (numNonemptyIn cells),
                       numMatching = numMatchingIn
                         (cellsOf (genPropToCellToUser (if t = STUDENT then studs else ttms)) p)
                         cells \<rparr>"
  let ?td = "typeDataOf (podsOf studs ttms) cells"
  have td: "?td = map ?mk pairs" unfolding pairs by (rule typeDataOf_pairs)
  then have len: "length ?td = length pairs" by simp
  have nm: "numMatching (?td ! j) = score (pairs ! j)"
    and ty: "type' (?td ! j) = fst (pairs ! j)"
    and pr: "prop' (?td ! j) = Some (snd (pairs ! j))"
    and mi: "minToMatch (?td ! j) = 0" if "j < length pairs" for j
    using that numNonemptyIn_blank [OF blank]
    by (simp_all add: td score minToMatchOf_0 split: prod.splits)
  from k have ne: "?td \<noteq> []" by (auto simp add: classifyColumn_def jsSort_def)
  from hd_jsSort_first_max [OF ne] obtain i where i: "i < length ?td"
    "hd (jsSort compareNumMatching ?td) = ?td ! i"
    "\<forall>j<length ?td. numMatching (?td ! j) \<le> numMatching (?td ! i)"
    "\<forall>j<i. numMatching (?td ! j) < numMatching (?td ! i)"
    by blast
  from ne obtain b bs where s: "jsSort compareNumMatching ?td = b # bs"
    by (cases "jsSort compareNumMatching ?td") simp_all
  with i(2) have b: "b = ?td ! i" by simp
  from i(1) len have il: "i < length pairs" by simp
  from k s b mi [OF il] have "tp = \<lparr> type' = type' (?td ! i), prop' = prop' (?td ! i) \<rparr>"
    by (simp add: classifyColumn_def)
  then have one: "tp = \<lparr> type' = fst (pairs ! i), prop' = Some (snd (pairs ! i)) \<rparr>"
    by (simp add: ty [OF il] pr [OF il])
  have two: "\<forall>j<length pairs. score (pairs ! j) \<le> score (pairs ! i)"
    using i(3) len nm il by simp
  have three: "\<forall>j<i. score (pairs ! j) < score (pairs ! i)"
    using i(4) nm il by simp
  from il one two three show ?thesis by blast
qed

text \<open>
  C10, as the code has it. In a run that returns, a column whose cells all trim to the
  empty string is never a data column: no cell is non-empty, the bar is
  \<open>Math.floor(0 * 0.4) = 0\<close>, and no count is below it. The pairs are enumerated roster by
  roster, the students first, and within a non-empty roster in the order of the
  properties; the count of a pair is the number of cells found in the lookup map of its
  roster under its property. The column gets a pair with the highest count, and among
  those the first one: every pair before it has a smaller count. For a blank column the
  empty string is looked up for each cell, so the count of a pair is the number of rows
  when its lookup map holds a user under the empty string, and zero otherwise. When no
  lookup map holds a user under the empty string, the column gets the first pair: the
  first non-empty roster and \<open>canvasId\<close>.
\<close>

theorem blank_column_takes_first_best_pair:
  assumes table: "preProcessCSV (csv os) = Inr table"
    and pre: "preProcessUsers (students os) = Some studs"
      "preProcessUsers (teachingTeamMembers os) = Some ttms"
    and run: "matchCSV os = Some (Inr res)"
    and c: "c < length (headers table)"
    and blank: "\<forall>row\<in>set (rows table). trim (row ! c) = []"
    and pairs: "pairs = (if studs = [] then [] else map (Pair STUDENT) props)
                        @ (if ttms = [] then [] else map (Pair TEACHING_TEAM_MEMBER) props)"
    and score: "score = (\<lambda>(t, p). numMatchingIn
                   (cellsOf (genPropToCellToUser (if t = STUDENT then studs else ttms)) p)
                   (map (\<lambda>row. row ! c) (rows table)))"
  shows "outType (colTypes res ! c) \<noteq> DATA
     \<and> (\<exists>i<length pairs.
           colTypes res ! c = \<lparr> outType = fst (pairs ! i),
                                 property = Some (propNameMap (snd (pairs ! i))) \<rparr>
           \<and> (\<forall>j<length pairs. score (pairs ! j) \<le> score (pairs ! i))
           \<and> (\<forall>j<i. score (pairs ! j) < score (pairs ! i)))
     \<and> (\<forall>t p. score (t, p)
           = (if hasUser (cellsOf (genPropToCellToUser (if t = STUDENT then studs else ttms)) p) []
              then length (rows table) else 0))
     \<and> ((\<forall>p. \<not> hasUser (cellsOf (genPropToCellToUser studs) p) []
              \<and> \<not> hasUser (cellsOf (genPropToCellToUser ttms) p) [])
         \<longrightarrow> colTypes res ! c
              = \<lparr> outType = (if studs \<noteq> [] then STUDENT else TEACHING_TEAM_MEMBER),
                  property = Some ''canvas-id'' \<rparr>)"
proof -
  let ?cells = "map (\<lambda>row. row ! c) (rows table)"
  from run matchCSV_cases [OF table pre]
  have p: "processTable os table studs ttms = Inr res" by simp
  then have ne: "\<not> (studs = [] \<and> ttms = [])" by (auto simp add: processTable_def)
  from processTable_Inr_form [OF ne, of table os] p obtain cls
    where cls: "colIndexToTypeAndPropOf studs ttms table = Inr cls"
      and res: "res = afterColumnTypes os table (genSearchFunctions studs)
                        (genSearchFunctions ttms) cls"
    by fastforce
  from colIndexToTypeAndPropOf_nth [OF cls c]
  have k: "classifyColumn (podsOf studs ttms) ?cells = Inr (cls ! c)"
    and len: "length cls = length (headers table)" by simp_all
  from blank have b: "\<forall>cell\<in>set ?cells. trim cell = []" by simp
  from c len have ct: "colTypes res ! c = colTypeOf (cls ! c)" by (simp add: res colTypes_run)
  have one: "outType (colTypes res ! c) \<noteq> DATA"
    using blank_column_not_data [OF b k] by (simp add: ct colTypeOf_def)
  from classifyColumn_blank [OF b k pairs score] obtain i where i: "i < length pairs"
    "cls ! c = \<lparr> type' = fst (pairs ! i), prop' = Some (snd (pairs ! i)) \<rparr>"
    "\<forall>j<length pairs. score (pairs ! j) \<le> score (pairs ! i)"
    "\<forall>j<i. score (pairs ! j) < score (pairs ! i)"
    by blast
  from i(2) have "colTypes res ! c = \<lparr> outType = fst (pairs ! i),
                                 property = Some (propNameMap (snd (pairs ! i))) \<rparr>"
    by (simp add: ct colTypeOf_def)
  with i have two: "\<exists>i<length pairs.
           colTypes res ! c = \<lparr> outType = fst (pairs ! i),
                                 property = Some (propNameMap (snd (pairs ! i))) \<rparr>
           \<and> (\<forall>j<length pairs. score (pairs ! j) \<le> score (pairs ! i))
           \<and> (\<forall>j<i. score (pairs ! j) < score (pairs ! i))"
    by blast
  have three: "\<forall>t p. score (t, p)
           = (if hasUser (cellsOf (genPropToCellToUser (if t = STUDENT then studs else ttms)) p) []
              then length (rows table) else 0)"
    using numMatchingIn_blank_cells [OF b] by (simp add: score)
  have four: "colTypes res ! c
      = \<lparr> outType = (if studs \<noteq> [] then STUDENT else TEACHING_TEAM_MEMBER),
          property = Some ''canvas-id'' \<rparr>"
    if "\<forall>p. \<not> hasUser (cellsOf (genPropToCellToUser studs) p) []
            \<and> \<not> hasUser (cellsOf (genPropToCellToUser ttms) p) []"
  proof -
    from that have "\<forall>p. \<not> hasUser (cellsOf (genPropToCellToUser studs) p) []"
      "\<forall>p. \<not> hasUser (cellsOf (genPropToCellToUser ttms) p) []" by simp_all
    from blank_column_first_pair [OF b this k] show ?thesis
      by (simp add: ct colTypeOf_def)
  qed
  from one two three four show ?thesis by (intro conjI impI)
qed

lemma all_props: "(\<forall>p. P p) = list_all P props"
  using props_all by (auto simp add: list_all_iff)

lemma preProcessUsers_alice: "preProcessUsers [alice] = Some [toSimpleObject alice]"
  unfolding preProcessUsers_def by (simp, rule removeDuplicateProps_done) code_simp

theorem blank_column_takes_first_best_pair_witness:
  "\<exists>res. matchCSV blankOpts = Some (Inr res)
     \<and> colTypes res ! 1 = \<lparr> outType = STUDENT, property = Some ''canvas-id'' \<rparr>"
proof -
  let ?table = "\<lparr> headers = [''Login'', ''Note''], rows = [[''aames'', '' '']] \<rparr>"
  have t: "preProcessCSV (csv blankOpts) = Inr ?table" by code_simp
  have a: "preProcessUsers (students blankOpts) = Some [toSimpleObject alice]"
    by (simp add: blankOpts_def preProcessUsers_alice)
  have b: "preProcessUsers (teachingTeamMembers blankOpts) = Some []"
    by (simp add: blankOpts_def preProcessUsers_Nil)
  from run_returns [OF t a b] obtain res where r: "matchCSV blankOpts = Some (Inr res)" by auto
  have c: "1 < length (headers ?table)" by simp
  have d: "\<forall>row\<in>set (rows ?table). trim (row ! 1) = []" by code_simp
  have e: "\<forall>p. \<not> hasUser (cellsOf (genPropToCellToUser [toSimpleObject alice]) p) []
              \<and> \<not> hasUser (cellsOf (genPropToCellToUser []) p) []"
    unfolding all_props by code_simp
  from blank_column_takes_first_best_pair [OF t a b r c d refl refl] e
  have "colTypes res ! 1 = \<lparr> outType = STUDENT, property = Some ''canvas-id'' \<rparr>" by simp
  with r show ?thesis by blast
qed

text \<open>
  C10, as the claim has it, fails: the pair is not always the first one. A user without
  an email is in the lookup map under the empty string, so an empty cell counts as a
  match of the email column; the blank second column of the table is classified as the
  email of a student, not as the \<open>canvasId\<close>.
\<close>

theorem blank_column_takes_best_pair:
  "map_option (map_sum id colTypes) (matchCSV blankMailOpts)
     = Some (Inr [\<lparr> outType = STUDENT, property = Some ''login-id'' \<rparr>,
                  \<lparr> outType = STUDENT, property = Some ''email'' \<rparr>])"
proof -
  let ?table = "\<lparr> headers = [''Login'', ''Note''], rows = [[''dido'', '' '']] \<rparr>"
  have t: "preProcessCSV (csv blankMailOpts) = Inr ?table" by code_simp
  have a: "preProcessUsers (students blankMailOpts) = Some [toSimpleObject noMail]"
    by (simp add: blankMailOpts_def preProcessUsers_noMail)
  have b: "preProcessUsers (teachingTeamMembers blankMailOpts) = Some []"
    by (simp add: blankMailOpts_def preProcessUsers_Nil)
  have c: "colIndexToTypeAndPropOf [toSimpleObject noMail] [] ?table
      = Inr [\<lparr> type' = STUDENT, prop' = Some LoginId \<rparr>, \<lparr> type' = STUDENT, prop' = Some Email \<rparr>]"
    by code_simp
  have "\<not> ([toSimpleObject noMail] = [] \<and> ([] :: simpleObject list) = [])" by simp
  from processTable_run [OF this c] matchCSV_cases [OF t a b]
  show ?thesis by (simp add: colTypes_run colTypeOf_def)
qed

section \<open>The only-once rule\<close>

lemma seen_grows: "set (fst st) \<subseteq> set (fst (foldl (seeUser t) st xs))"
proof (induction xs arbitrary: st)
  case Nil
  then show ?case by simp
next
  case (Cons x xs)
  have "set (fst st) \<subseteq> set (fst (seeUser t st x))" by (auto simp add: seeUser_def)
  with Cons [of "seeUser t st x"] show ?case by auto
qed

lemma seen_after: "x \<in> set xs \<Longrightarrow> String_of (canvasId x) \<in> set (fst (foldl (seeUser t) st xs))"
proof (induction xs arbitrary: st)
  case Nil
  then show ?case by simp
next
  case (Cons y ys)
  show ?case
  proof (cases "x = y")
    case True
    have "String_of (canvasId y) \<in> set (fst (seeUser t st y))" by (simp add: seeUser_def)
    with seen_grows [of "seeUser t st y" t ys] True show ?thesis by auto
  next
    case False
    with Cons show ?thesis by simp
  qed
qed

lemma messages_kept:
  assumes "snd st k \<in> Some ` M"
    and "\<forall>v\<in>set xs. String_of (canvasId v) = k \<longrightarrow> disqualifiedMessage t v \<in> M"
  shows "snd (foldl (seeUser t) st xs) k \<in> Some ` M"
  using assms
proof (induction xs arbitrary: st)
  case Nil
  then show ?case by simp
next
  case (Cons x xs)
  from Cons.prems have "snd (seeUser t st x) k \<in> Some ` M" by (auto simp add: seeUser_def)
  moreover from Cons.prems(2)
  have "\<forall>v\<in>set xs. String_of (canvasId v) = k \<longrightarrow> disqualifiedMessage t v \<in> M" by simp
  ultimately show ?case using Cons.IH [of "seeUser t st x"] by simp
qed

lemma second_occurrence:
  assumes "String_of (canvasId u) \<in> set (fst st)"
    and "\<forall>v\<in>set (u # xs). String_of (canvasId v) = String_of (canvasId u)
            \<longrightarrow> disqualifiedMessage t v \<in> M"
  shows "snd (foldl (seeUser t) st (u # xs)) (String_of (canvasId u)) \<in> Some ` M"
proof -
  from assms have "snd (seeUser t st u) (String_of (canvasId u)) \<in> Some ` M"
    by (simp add: seeUser_def)
  moreover from assms(2)
  have "\<forall>v\<in>set xs. String_of (canvasId v) = String_of (canvasId u)
            \<longrightarrow> disqualifiedMessage t v \<in> M" by simp
  ultimately show ?thesis using messages_kept [of "seeUser t st u"] by simp
qed

lemma seen_twice:
  assumes "u \<in> set xs" and "u \<in> set ys"
    and m: "\<forall>v\<in>set (xs @ ys). String_of (canvasId v) = String_of (canvasId u)
            \<longrightarrow> disqualifiedMessage t v \<in> M"
  shows "snd (foldl (seeUser t) st (xs @ ys)) (String_of (canvasId u)) \<in> Some ` M"
proof -
  from assms(2) obtain p q where ys: "ys = p @ u # q" by (auto dest: split_list)
  let ?st = "foldl (seeUser t) st (xs @ p)"
  have "String_of (canvasId u) \<in> set (fst (foldl (seeUser t) st xs))"
    using assms(1) by (rule seen_after)
  with seen_grows [of "foldl (seeUser t) st xs" t p]
  have s: "String_of (canvasId u) \<in> set (fst ?st)" by auto
  from m ys have "\<forall>v\<in>set (u # q). String_of (canvasId v) = String_of (canvasId u)
            \<longrightarrow> disqualifiedMessage t v \<in> M" by simp
  from second_occurrence [OF s this] show ?thesis by (simp add: ys)
qed

lemma foldl_rows: "foldl (\<lambda>st r. foldl f st (g r)) st rs = foldl f st (concat (map g rs))"
  by (induction rs arbitrary: st) simp_all

lemma findDisqualified_flat:
  "findDisqualified t rowMatches d
     = snd (foldl (seeUser t) ([], d) (concat (map (usersOfType t) rowMatches)))"
  by (simp add: findDisqualified_def foldl_rows)

lemma findDisqualified_twice:
  assumes "i < j" and "j < length rowMatches"
    and "u \<in> set (usersOfType t (rowMatches ! i))"
    and "u \<in> set (usersOfType t (rowMatches ! j))"
    and m: "\<forall>r\<in>set rowMatches. \<forall>v\<in>set (usersOfType t r).
              String_of (canvasId v) = String_of (canvasId u) \<longrightarrow> disqualifiedMessage t v \<in> M"
  shows "findDisqualified t rowMatches d (String_of (canvasId u)) \<in> Some ` M"
proof -
  let ?g = "usersOfType t"
  let ?xs = "concat (map ?g (take j rowMatches))"
  let ?ys = "concat (map ?g (drop j rowMatches))"
  from assms(1,2) have "rowMatches ! i \<in> set (take j rowMatches)"
    by (metis in_set_conv_nth length_take min.absorb2 nth_take order_less_imp_le)
  with assms(3) have x: "u \<in> set ?xs" by auto
  from assms(2) have "rowMatches ! j \<in> set (drop j rowMatches)"
    by (metis Cons_nth_drop_Suc list.set_intros(1))
  with assms(4) have y: "u \<in> set ?ys" by auto
  have c: "concat (map ?g rowMatches) = ?xs @ ?ys"
    by (metis append_take_drop_id concat_append map_append)
  from m have "\<forall>v\<in>set (?xs @ ?ys). String_of (canvasId v) = String_of (canvasId u)
            \<longrightarrow> disqualifiedMessage t v \<in> M"
    unfolding c [symmetric] by auto
  from seen_twice [OF x y this] show ?thesis by (simp add: findDisqualified_flat c)
qed

lemma findDisqualified_kept:
  assumes "d k \<in> Some ` M"
    and "\<forall>r\<in>set rowMatches. \<forall>v\<in>set (usersOfType t r).
              String_of (canvasId v) = k \<longrightarrow> disqualifiedMessage t v \<in> M"
  shows "findDisqualified t rowMatches d k \<in> Some ` M"
proof -
  from assms(2) have "\<forall>v\<in>set (concat (map (usersOfType t) rowMatches)).
      String_of (canvasId v) = k \<longrightarrow> disqualifiedMessage t v \<in> M" by auto
  with assms(1) messages_kept [of "([], d)" k M "concat (map (usersOfType t) rowMatches)" t]
  show ?thesis by (simp add: findDisqualified_flat)
qed


lemma disqualifiedMessage_name:
  "fullName v = fullName u \<Longrightarrow> disqualifiedMessage t v = disqualifiedMessage t u"
  by (simp add: disqualifiedMessage_def)

lemma disqualifiedMessage_nonempty: "disqualifiedMessage t u \<noteq> []"
  by (simp add: disqualifiedMessage_def)

lemma isDisqualifiedOf_twice:
  assumes once: "t = STUDENT \<and> sOnce \<or> t = TEACHING_TEAM_MEMBER \<and> tOnce"
    and "i < j" and "j < length rowMatches"
    and "u \<in> set (usersOfType t (rowMatches ! i))"
    and "u \<in> set (usersOfType t (rowMatches ! j))"
    and names: "\<forall>r\<in>set rowMatches.
        \<forall>v\<in>set (studentMatches r @ teachingTeamMemberMatches r).
          String_of (canvasId v) = String_of (canvasId u) \<longrightarrow> fullName v = fullName u"
  shows "isDisqualifiedOf sOnce tOnce rowMatches (String_of (canvasId u))
           \<in> Some ` {m. sOnce \<and> m = disqualifiedMessage STUDENT u
                        \<or> tOnce \<and> m = disqualifiedMessage TEACHING_TEAM_MEMBER u}"
proof -
  let ?M = "{m. sOnce \<and> m = disqualifiedMessage STUDENT u
                \<or> tOnce \<and> m = disqualifiedMessage TEACHING_TEAM_MEMBER u}"
  have n: "fullName v = fullName u"
    if "r \<in> set rowMatches" "v \<in> set (usersOfType t' r)"
      "String_of (canvasId v) = String_of (canvasId u)" for r v t'
    using names that by (auto simp add: usersOfType_def split: if_splits)
  have ms: "\<forall>r\<in>set rowMatches. \<forall>v\<in>set (usersOfType STUDENT r).
      String_of (canvasId v) = String_of (canvasId u) \<longrightarrow> disqualifiedMessage STUDENT v \<in> ?M"
    if sOnce
    using n disqualifiedMessage_name that by blast
  have mt: "\<forall>r\<in>set rowMatches. \<forall>v\<in>set (usersOfType TEACHING_TEAM_MEMBER r).
      String_of (canvasId v) = String_of (canvasId u)
        \<longrightarrow> disqualifiedMessage TEACHING_TEAM_MEMBER v \<in> ?M"
    if tOnce
    using n disqualifiedMessage_name that by blast
  from once show ?thesis
  proof
    assume a: "t = STUDENT \<and> sOnce"
    with assms(2-5) ms
    have d1: "findDisqualified STUDENT rowMatches Map.empty (String_of (canvasId u)) \<in> Some ` ?M"
      using findDisqualified_twice [of i j rowMatches u STUDENT ?M Map.empty] by simp
    show ?thesis
    proof (cases tOnce)
      case True
      from d1 mt [OF True] have "findDisqualified TEACHING_TEAM_MEMBER rowMatches
          (findDisqualified STUDENT rowMatches Map.empty) (String_of (canvasId u)) \<in> Some ` ?M"
        by (rule findDisqualified_kept)
      with a True show ?thesis by (simp add: isDisqualifiedOf_def)
    next
      case False
      with d1 a show ?thesis by (simp add: isDisqualifiedOf_def)
    qed
  next
    assume a: "t = TEACHING_TEAM_MEMBER \<and> tOnce"
    with assms(2-5) mt
    have "\<And>d. findDisqualified TEACHING_TEAM_MEMBER rowMatches d (String_of (canvasId u))
        \<in> Some ` ?M"
      using findDisqualified_twice [of i j rowMatches u TEACHING_TEAM_MEMBER ?M] by simp
    with a show ?thesis by (simp add: isDisqualifiedOf_def Let_def)
  qed
qed

lemma resolveRow_disqualified:
  assumes "d (String_of (canvasId u)) = Some m" and "m \<noteq> []"
    and "u \<in> set (studentMatches r) \<or> u \<in> set (teachingTeamMemberMatches r)"
  shows "\<exists>ur. resolveRow d nS nT cls rws (k, r) = Inr ur \<and> rowIndex ur = k \<and> m \<in> set (errors ur)"
proof -
  let ?f = "\<lambda>v. pushIfTruthy (d (String_of (canvasId v)))"
  from assms(1,2) have p: "m \<in> set (?f u)" by (simp add: pushIfTruthy_def)
  have c: "m \<in> set (concat (map ?f users))" if "u \<in> set users" for users
    using that p by (induction users) auto
  from assms(3) have "m \<in> set (concat (map ?f (studentMatches r)))
      \<or> m \<in> set (concat (map ?f (teachingTeamMemberMatches r)))"
    using c by blast
  then have e: "m \<in> set (unmatchedErrorsOf d nS nT r)"
    unfolding unmatchedErrorsOf_def by auto
  then have "unmatchedErrorsOf d nS nT r \<noteq> []" by auto
  with e show ?thesis by (simp add: resolveRow_def Let_def)
qed

lemma addProp_entries:
  assumes "\<forall>p c v. cellsOf m p c = Some (User v) \<longrightarrow> v \<in> U" and "u \<in> U"
  shows "\<forall>p c v. cellsOf (addProp u m q) p c = Some (User v) \<longrightarrow> v \<in> U"
  using assms by (auto simp add: cellsOf_addProp split: if_splits)

lemma foldl_addProp_entries:
  assumes "\<forall>p c v. cellsOf m p c = Some (User v) \<longrightarrow> v \<in> U" and "u \<in> U"
  shows "\<forall>p c v. cellsOf (foldl (addProp u) m ps) p c = Some (User v) \<longrightarrow> v \<in> U"
  using assms(1)
proof (induction ps arbitrary: m)
  case Nil
  then show ?case by simp
next
  case (Cons q ps)
  from addProp_entries [OF Cons.prems assms(2)]
  have "\<forall>p c v. cellsOf (addProp u m q) p c = Some (User v) \<longrightarrow> v \<in> U" .
  from Cons.IH [OF this] show ?case by simp
qed

lemma foldl_addUser_entries:
  assumes "\<forall>p c v. cellsOf m p c = Some (User v) \<longrightarrow> v \<in> U" and "set us \<subseteq> U"
  shows "\<forall>p c v. cellsOf (foldl addUser m us) p c = Some (User v) \<longrightarrow> v \<in> U"
  using assms
proof (induction us arbitrary: m)
  case Nil
  then show ?case by simp
next
  case (Cons u us)
  from Cons.prems have "\<forall>p c v. cellsOf (addUser m u) p c = Some (User v) \<longrightarrow> v \<in> U"
    using foldl_addProp_entries [of m U u props] by (simp add: addUser_def)
  with Cons show ?case by simp
qed

lemma entries_are_users:
  "cellsOf (genPropToCellToUser users) p c = Some (User v) \<Longrightarrow> v \<in> set users"
  using foldl_addUser_entries [of "[]" "set users" users]
  by (simp add: genPropToCellToUser_def cellsOf_def)

lemma getMatch_member:
  "getMatch (genSearchFunctions users) prp cell = Some v \<Longrightarrow> v \<in> set users"
proof -
  assume a: "getMatch (genSearchFunctions users) prp cell = Some v"
  then obtain p cells where "prp = Some p" "map_of (genPropToCellToUser users) p = Some cells"
    "cells cell = Some (User v)"
    by (auto simp add: getMatch_def genSearchFunctions_def split: option.splits entry.splits)
  then have "cellsOf (genPropToCellToUser users) p cell = Some (User v)"
    by (simp add: cellsOf_def)
  then show ?thesis by (rule entries_are_users)
qed

lemma matchCell_members:
  assumes "set (studentMatches acc) \<subseteq> set studs"
    and "set (teachingTeamMemberMatches acc) \<subseteq> set ttms"
  shows "set (studentMatches (matchCell (genSearchFunctions studs) (genSearchFunctions ttms)
            cls acc ci)) \<subseteq> set studs
       \<and> set (teachingTeamMemberMatches (matchCell (genSearchFunctions studs)
            (genSearchFunctions ttms) cls acc ci)) \<subseteq> set ttms"
  using assms
  by (auto simp add: matchCell_def Let_def setAdd_def split: option.splits if_splits
      dest: getMatch_member)

lemma matchRow_members:
  "set (studentMatches (matchRow (genSearchFunctions studs) (genSearchFunctions ttms) cls row))
     \<subseteq> set studs
   \<and> set (teachingTeamMemberMatches (matchRow (genSearchFunctions studs)
         (genSearchFunctions ttms) cls row)) \<subseteq> set ttms"
proof -
  have "set (studentMatches (foldl (matchCell (genSearchFunctions studs)
        (genSearchFunctions ttms) cls) acc cis)) \<subseteq> set studs
     \<and> set (teachingTeamMemberMatches (foldl (matchCell (genSearchFunctions studs)
        (genSearchFunctions ttms) cls) acc cis)) \<subseteq> set ttms"
    if "set (studentMatches acc) \<subseteq> set studs"
      "set (teachingTeamMemberMatches acc) \<subseteq> set ttms" for acc cis
    using that
  proof (induction cis arbitrary: acc)
    case Nil
    then show ?case by simp
  next
    case (Cons ci cis)
    from matchCell_members [OF Cons.prems] Cons.IH show ?case by simp
  qed
  then show ?thesis by (simp add: matchRow_def)
qed

lemma rowMatchesOf_members:
  assumes "r \<in> set (rowMatchesOf (genSearchFunctions studs) (genSearchFunctions ttms) cls rws)"
  shows "set (studentMatches r @ teachingTeamMemberMatches r) \<subseteq> set (studs @ ttms)"
  using assms matchRow_members [of studs ttms cls] by (auto simp add: rowMatchesOf_def)

text \<open>
  C3. In a run that returns, let the only-once rule be on for a roster, and let a user be
  among the matches of that roster in two rows. Then every row that has the user among
  its matches of that roster, the first one too, is in the unmatched rows, under its own
  index and with its own cells, and not in the matched rows; and its errors hold the
  message of a rule that is on: "Each student can only show up once in your CSV, but N
  showed up more than once.", or the same with "teaching team member", where N is the
  name of the user. (The name is that of the user as long as every object with the
  user's id carries the same name.)
\<close>

theorem repeated_identity_rejects_every_row:
  assumes table: "preProcessCSV (csv os) = Inr table"
    and pre: "preProcessUsers (students os) = Some studs"
      "preProcessUsers (teachingTeamMembers os) = Some ttms"
    and run: "matchCSV os = Some (Inr res)"
    and cls: "colIndexToTypeAndPropOf studs ttms table = Inr cls"
    and rm: "rowMatches = rowMatchesOf (genSearchFunctions studs) (genSearchFunctions ttms) cls
                            (rows table)"
    and once: "studentOnlyOnce os
                 \<and> u \<in> set (studentMatches (rowMatches ! i))
                 \<and> u \<in> set (studentMatches (rowMatches ! j))
                 \<and> u \<in> set (studentMatches (rowMatches ! k))
               \<or> teachingTeamMemberOnlyOnce os
                 \<and> u \<in> set (teachingTeamMemberMatches (rowMatches ! i))
                 \<and> u \<in> set (teachingTeamMemberMatches (rowMatches ! j))
                 \<and> u \<in> set (teachingTeamMemberMatches (rowMatches ! k))"
    and twice: "i < j" "j < length rowMatches"
    and k: "k < length rowMatches"
    and names: "\<forall>v\<in>set (studs @ ttms).
        String_of (canvasId v) = String_of (canvasId u) \<longrightarrow> fullName v = fullName u"
  shows "(\<exists>ur. ur \<in> set (unmatchedRows res) \<and> rowIndex ur = k \<and> rawRow ur = rows table ! k
            \<and> (studentOnlyOnce os
                  \<and> ''Each student can only show up once in your CSV, but ''
                      @ String_of (fullName u) @ '' showed up more than once.''
                    \<in> set (errors ur)
                \<or> teachingTeamMemberOnlyOnce os
                  \<and> ''Each teaching team member can only show up once in your CSV, but ''
                      @ String_of (fullName u) @ '' showed up more than once.''
                    \<in> set (errors ur)))
         \<and> k \<notin> set (map rowIndex (matchedRows res))"
proof -
  let ?sfS = "genSearchFunctions studs"
  let ?sfT = "genSearchFunctions ttms"
  let ?d = "isDisqualifiedOf (studentOnlyOnce os) (teachingTeamMemberOnlyOnce os) rowMatches"
  let ?nS = "numStudentsPerRowOf os rowMatches"
  let ?nT = "numTeachingTeamMembersPerRowOf os rowMatches"
  from run matchCSV_cases [OF table pre]
  have p: "processTable os table studs ttms = Inr res" by simp
  then have ne: "\<not> (studs = [] \<and> ttms = [])" by (auto simp add: processTable_def)
  from processTable_run [OF ne cls] p
  have res: "res = afterColumnTypes os table ?sfS ?sfT cls" by simp
  have n': "\<forall>r\<in>set rowMatches. \<forall>v\<in>set (studentMatches r @ teachingTeamMemberMatches r).
          String_of (canvasId v) = String_of (canvasId u) \<longrightarrow> fullName v = fullName u"
    using names rowMatchesOf_members [of _ studs ttms cls "rows table"] rm by blast
  from once obtain t where t: "t = STUDENT \<and> studentOnlyOnce os
                \<or> t = TEACHING_TEAM_MEMBER \<and> teachingTeamMemberOnlyOnce os"
    and ui: "u \<in> set (usersOfType t (rowMatches ! i))"
    and uj: "u \<in> set (usersOfType t (rowMatches ! j))"
    and uk: "u \<in> set (usersOfType t (rowMatches ! k))"
  proof
    assume "studentOnlyOnce os
                 \<and> u \<in> set (studentMatches (rowMatches ! i))
                 \<and> u \<in> set (studentMatches (rowMatches ! j))
                 \<and> u \<in> set (studentMatches (rowMatches ! k))"
    then show ?thesis using that [of STUDENT] by (simp add: usersOfType_def)
  next
    assume "teachingTeamMemberOnlyOnce os
                 \<and> u \<in> set (teachingTeamMemberMatches (rowMatches ! i))
                 \<and> u \<in> set (teachingTeamMemberMatches (rowMatches ! j))
                 \<and> u \<in> set (teachingTeamMemberMatches (rowMatches ! k))"
    then show ?thesis using that [of TEACHING_TEAM_MEMBER] by (simp add: usersOfType_def)
  qed
  from isDisqualifiedOf_twice [OF t twice ui uj n'] obtain m
    where m: "?d (String_of (canvasId u)) = Some m"
      "studentOnlyOnce os \<and> m = disqualifiedMessage STUDENT u
       \<or> teachingTeamMemberOnlyOnce os \<and> m = disqualifiedMessage TEACHING_TEAM_MEMBER u"
    by auto
  then have mne: "m \<noteq> []"
    using disqualifiedMessage_nonempty [of STUDENT u]
      disqualifiedMessage_nonempty [of TEACHING_TEAM_MEMBER u] by metis
  from uk have ku: "u \<in> set (studentMatches (rowMatches ! k))
      \<or> u \<in> set (teachingTeamMemberMatches (rowMatches ! k))"
    by (auto simp add: usersOfType_def split: if_splits)
  from resolveRow_disqualified [where d = ?d and u = u and m = m and r = "rowMatches ! k"
      and nS = ?nS and nT = ?nT and cls = cls and rws = "rows table" and k = k, OF m(1) mne ku]
  obtain ur
    where ur: "resolveRow ?d ?nS ?nT cls (rows table) (k, rowMatches ! k) = Inr ur"
      "rowIndex ur = k" "m \<in> set (errors ur)"
    by blast
  from rejected_row [OF k ur(1)]
  have in_u: "ur \<in> set (unmatchedRowsOf (resolvedRowsOf os table cls rowMatches))"
    and not_m: "\<forall>mr\<in>set (matchedRowsOf (resolvedRowsOf os table cls rowMatches)).
        rowIndex mr \<noteq> k"
    by (simp_all add: resolvedRowsOf_def)
  let ?full = "\<lambda>unmatchedRow. fullUnmatchedRow (idToFullUser (students os) (teachingTeamMembers os))
      (addPotentialUsers ?sfS ?sfT
         (usersToExcludeOf (studentOnlyOnce os) (teachingTeamMemberOnlyOnce os)
            (matchedRowsOf (resolvedRowsOf os table cls rowMatches))) unmatchedRow)"
  from in_u have "?full ur \<in> set (unmatchedRows res)"
    by (simp add: res unmatchedRows_run rm [symmetric])
  moreover have "rowIndex (?full ur) = k" using ur(2) by simp
  moreover have "rawRow (?full ur) = rows table ! k"
    using rawRow_resolveRow(2) [OF ur(1)] by simp
  moreover have "m \<in> set (errors (?full ur))" using ur(3) by simp
  moreover from m(2)
  have "studentOnlyOnce os
          \<and> m = ''Each student can only show up once in your CSV, but ''
                  @ String_of (fullName u) @ '' showed up more than once.''
      \<or> teachingTeamMemberOnlyOnce os
          \<and> m = ''Each teaching team member can only show up once in your CSV, but ''
                  @ String_of (fullName u) @ '' showed up more than once.''"
    by (simp add: disqualifiedMessage_def)
  ultimately have one: "\<exists>ur. ur \<in> set (unmatchedRows res) \<and> rowIndex ur = k
            \<and> rawRow ur = rows table ! k
            \<and> (studentOnlyOnce os
                  \<and> ''Each student can only show up once in your CSV, but ''
                      @ String_of (fullName u) @ '' showed up more than once.''
                    \<in> set (errors ur)
                \<or> teachingTeamMemberOnlyOnce os
                  \<and> ''Each teaching team member can only show up once in your CSV, but ''
                      @ String_of (fullName u) @ '' showed up more than once.''
                    \<in> set (errors ur))"
    by blast
  from not_m have two: "k \<notin> set (map rowIndex (matchedRows res))"
    by (auto simp add: res matchedRows_run rm [symmetric])
  from one two show ?thesis by (rule conjI)
qed

lemma preProcessUsers_noMail_twin:
  "preProcessUsers [noMail, twin] = Some [toSimpleObject noMail, toSimpleObject twin]"
  unfolding preProcessUsers_def by (simp, rule removeDuplicateProps_done) code_simp

lemma twiceOpts_table:
  "preProcessCSV (csv twiceOpts)
     = Inr \<lparr> headers = [''Name''], rows = [[''di do''], [''ed eck''], [''di do'']] \<rparr>"
  by code_simp

lemma twiceOpts_colTypes:
  "colIndexToTypeAndPropOf [toSimpleObject noMail, toSimpleObject twin] []
     \<lparr> headers = [''Name''], rows = [[''di do''], [''ed eck''], [''di do'']] \<rparr>
   = Inr [\<lparr> type' = STUDENT, prop' = Some FullName \<rparr>]"
  by code_simp

lemma twiceOpts_rowMatches:
  "rowMatchesOf (genSearchFunctions [toSimpleObject noMail, toSimpleObject twin])
     (genSearchFunctions []) [\<lparr> type' = STUDENT, prop' = Some FullName \<rparr>]
     (rows \<lparr> headers = [''Name''], rows = [[''di do''], [''ed eck''], [''di do'']] \<rparr>)
   = [\<lparr> studentMatches = [toSimpleObject noMail], teachingTeamMemberMatches = [] \<rparr>,
      \<lparr> studentMatches = [toSimpleObject twin], teachingTeamMemberMatches = [] \<rparr>,
      \<lparr> studentMatches = [toSimpleObject noMail], teachingTeamMemberMatches = [] \<rparr>]"
  by code_simp

theorem repeated_identity_rejects_every_row_witness:
  "\<exists>res ur. matchCSV twiceOpts = Some (Inr res) \<and> ur \<in> set (unmatchedRows res)
     \<and> rowIndex ur = 0 \<and> rawRow ur = [''di do'']
     \<and> ''Each student can only show up once in your CSV, but di do showed up more than once.''
          \<in> set (errors ur)
     \<and> 0 \<notin> set (map rowIndex (matchedRows res))"
proof -
  let ?table = "\<lparr> headers = [''Name''], rows = [[''di do''], [''ed eck''], [''di do'']] \<rparr>"
  define rm where "rm = [\<lparr> studentMatches = [toSimpleObject noMail], teachingTeamMemberMatches = [] \<rparr>,
      \<lparr> studentMatches = [toSimpleObject twin], teachingTeamMemberMatches = [] \<rparr>,
      \<lparr> studentMatches = [toSimpleObject noMail], teachingTeamMemberMatches = [] \<rparr>]"
  have a: "preProcessUsers (students twiceOpts) = Some [toSimpleObject noMail, toSimpleObject twin]"
    by (simp add: twiceOpts_def preProcessUsers_noMail_twin)
  have b: "preProcessUsers (teachingTeamMembers twiceOpts) = Some []"
    by (simp add: twiceOpts_def preProcessUsers_Nil)
  from run_returns [OF twiceOpts_table a b] obtain res
    where r: "matchCSV twiceOpts = Some (Inr res)" by auto
  have rm: "rm = rowMatchesOf (genSearchFunctions [toSimpleObject noMail, toSimpleObject twin])
     (genSearchFunctions []) [\<lparr> type' = STUDENT, prop' = Some FullName \<rparr>] (rows ?table)"
    unfolding rm_def by (simp only: twiceOpts_rowMatches)
  have once: "studentOnlyOnce twiceOpts
                 \<and> toSimpleObject noMail \<in> set (studentMatches (rm ! 0))
                 \<and> toSimpleObject noMail \<in> set (studentMatches (rm ! 2))
                 \<and> toSimpleObject noMail \<in> set (studentMatches (rm ! 0))
               \<or> teachingTeamMemberOnlyOnce twiceOpts
                 \<and> toSimpleObject noMail \<in> set (teachingTeamMemberMatches (rm ! 0))
                 \<and> toSimpleObject noMail \<in> set (teachingTeamMemberMatches (rm ! 2))
                 \<and> toSimpleObject noMail \<in> set (teachingTeamMemberMatches (rm ! 0))"
    by (simp add: twiceOpts_def rm_def)
  have names: "\<forall>v\<in>set ([toSimpleObject noMail, toSimpleObject twin] @ []).
      String_of (canvasId v) = String_of (canvasId (toSimpleObject noMail))
        \<longrightarrow> fullName v = fullName (toSimpleObject noMail)"
    by code_simp
  have i: "(0::nat) < 2" by simp
  have j: "2 < length rm" by (simp add: rm_def)
  have k: "0 < length rm" by (simp add: rm_def)
  have nm: "String_of (fullName (toSimpleObject noMail)) = ''di do''" by code_simp
  have tt: "\<not> teachingTeamMemberOnlyOnce twiceOpts" by (simp add: twiceOpts_def)
  from repeated_identity_rejects_every_row
    [OF twiceOpts_table a b r twiceOpts_colTypes rm once i j k names]
  obtain ur where ur: "ur \<in> set (unmatchedRows res)" "rowIndex ur = 0"
    "rawRow ur = rows ?table ! 0"
    "studentOnlyOnce twiceOpts
       \<and> ''Each student can only show up once in your CSV, but ''
           @ ''di do'' @ '' showed up more than once.'' \<in> set (errors ur)
     \<or> teachingTeamMemberOnlyOnce twiceOpts
       \<and> ''Each teaching team member can only show up once in your CSV, but ''
           @ ''di do'' @ '' showed up more than once.'' \<in> set (errors ur)"
    and nm': "0 \<notin> set (map rowIndex (matchedRows res))"
    unfolding nm by blast
  from ur(4) tt
  have "''Each student can only show up once in your CSV, but di do showed up more than once.''
          \<in> set (errors ur)"
    by simp
  with r ur(1,2,3) nm' show ?thesis by auto
qed

end
